theory Spec2Isabelle
  imports Main
begin

section \<open>Text: Python strings as sequences of code points\<close>

text \<open>
  A Python \<open>str\<close> is a sequence of Unicode code points, so a string is a list of
  integers (what \<open>ord\<close> gives for each character) and a document is a list of physical
  lines, each with its own line terminator, as \<open>splitlines(keepends=True)\<close> delivers
  them.
\<close>

type_synonym codepoint = int

type_synonym ustring = "codepoint list"

definition u :: "string \<Rightarrow> ustring" where
  \<comment> \<open>An ASCII literal as code points.\<close>
  "u s = map of_char s"

abbreviation LF :: codepoint where "LF \<equiv> 10"
abbreviation DQUOTE :: codepoint where "DQUOTE \<equiv> 34"
abbreviation HASH :: codepoint where "HASH \<equiv> 35"
abbreviation SQUOTE :: codepoint where "SQUOTE \<equiv> 39"
abbreviation DOT :: codepoint where "DOT \<equiv> 46"
abbreviation EQUALS :: codepoint where "EQUALS \<equiv> 61"
abbreviation LBRACKET :: codepoint where "LBRACKET \<equiv> 91"
abbreviation BACKSLASH :: codepoint where "BACKSLASH \<equiv> 92"
abbreviation RBRACKET :: codepoint where "RBRACKET \<equiv> 93"
abbreviation LBRACE :: codepoint where "LBRACE \<equiv> 123"
abbreviation RBRACE :: codepoint where "RBRACE \<equiv> 125"

definition slice_from :: "'a list \<Rightarrow> int \<Rightarrow> 'a list" where
  \<comment> \<open>Python \<open>xs[k:]\<close>: a negative \<open>k\<close> counts from the end.\<close>
  "slice_from xs k =
     (if k < 0 then drop (nat (int (length xs) + k)) xs else drop (nat k) xs)"

definition slice_to :: "'a list \<Rightarrow> int \<Rightarrow> 'a list" where
  \<comment> \<open>Python \<open>xs[:k]\<close>.\<close>
  "slice_to xs k =
     (if k < 0 then take (nat (int (length xs) + k)) xs else take (nat k) xs)"

definition isspace :: "codepoint \<Rightarrow> bool" where
  \<comment> \<open>The code points that \<open>str.strip\<close> removes and that \<open>\s\<close> matches.\<close>
  "isspace c \<longleftrightarrow>
     (9 \<le> c \<and> c \<le> 13) \<or> (28 \<le> c \<and> c \<le> 32) \<or> c = 133 \<or> c = 160 \<or> c = 5760 \<or>
     (8192 \<le> c \<and> c \<le> 8202) \<or> c = 8232 \<or> c = 8233 \<or> c = 8239 \<or> c = 8287 \<or>
     c = 12288"

definition lstrip :: "ustring \<Rightarrow> ustring" where
  "lstrip s = dropWhile isspace s"

definition rstrip :: "ustring \<Rightarrow> ustring" where
  "rstrip s = rev (dropWhile isspace (rev s))"

definition strip :: "ustring \<Rightarrow> ustring" where
  "strip s = lstrip (rstrip s)"

definition startswith :: "ustring \<Rightarrow> ustring \<Rightarrow> bool" where
  "startswith s p \<longleftrightarrow> take (length p) s = p"

definition endswith :: "ustring \<Rightarrow> ustring \<Rightarrow> bool" where
  "endswith s p \<longleftrightarrow> length p \<le> length s \<and> drop (length s - length p) s = p"

fun join :: "ustring \<Rightarrow> ustring list \<Rightarrow> ustring" where
  "join sep [] = []"
| "join sep [x] = x"
| "join sep (x # y # ys) = x @ sep @ join sep (y # ys)"

definition is_linebreak :: "codepoint \<Rightarrow> bool" where
  \<comment> \<open>The single-character line boundaries of \<open>str.splitlines\<close>; CR LF is one boundary.\<close>
  "is_linebreak c \<longleftrightarrow>
     c = 10 \<or> c = 11 \<or> c = 12 \<or> c = 13 \<or> c = 28 \<or> c = 29 \<or> c = 30 \<or> c = 133 \<or>
     c = 8232 \<or> c = 8233"

fun splitlines_from :: "bool \<Rightarrow> ustring \<Rightarrow> ustring \<Rightarrow> ustring list" where
  "splitlines_from keepends cur [] = (if cur = [] then [] else [cur])"
| "splitlines_from keepends cur [c] =
     (if is_linebreak c then [cur @ (if keepends then [c] else [])]
      else [cur @ [c]])"
| "splitlines_from keepends cur (c # d # rest) =
     (if c = 13 \<and> d = 10 then
        (cur @ (if keepends then [c, d] else [])) # splitlines_from keepends [] rest
      else if is_linebreak c then
        (cur @ (if keepends then [c] else [])) # splitlines_from keepends [] (d # rest)
      else splitlines_from keepends (cur @ [c]) (d # rest))"

definition splitlines :: "bool \<Rightarrow> ustring \<Rightarrow> ustring list" where
  "splitlines keepends text = splitlines_from keepends [] text"

section \<open>The value-boundary scanner\<close>

text \<open>
  \<open>_value_block_end\<close> keeps four string flags and two bracket depths across the
  physical lines of a value. The depths are only decremented when positive, so they
  are naturals.
\<close>

record scan_state =
  depth_square :: nat
  depth_curly :: nat
  in_dq :: bool
  in_sq :: bool
  in_triple_dq :: bool
  in_triple_sq :: bool

definition scan_init :: scan_state where
  "scan_init = \<lparr>depth_square = 0, depth_curly = 0, in_dq = False, in_sq = False,
                 in_triple_dq = False, in_triple_sq = False\<rparr>"

definition TRIPLE_DQ :: ustring where
  "TRIPLE_DQ = [DQUOTE, DQUOTE, DQUOTE]"

definition TRIPLE_SQ :: ustring where
  "TRIPLE_SQ = [SQUOTE, SQUOTE, SQUOTE]"

datatype line_outcome = CommentStart | EndOfLine scan_state

text \<open>
  The inner \<open>while j < len(text)\<close> loop, on the text from position \<open>j\<close> on:
  \<open>j += 1\<close> is the tail, \<open>j += 2\<close> and \<open>j += 3\<close> drop one and two more characters.
  \<open>CommentStart\<close> is the \<open>return i\<close> at an unquoted \<open>#\<close> outside every bracket.
\<close>

fun scan_text :: "scan_state \<Rightarrow> ustring \<Rightarrow> line_outcome" where
  "scan_text st [] = EndOfLine st"
| "scan_text st (ch # rest) =
     (if in_triple_dq st then
        (if take 3 (ch # rest) = TRIPLE_DQ
         then scan_text (st\<lparr>in_triple_dq := False\<rparr>) (drop 2 rest)
         else scan_text st rest)
      else if in_triple_sq st then
        (if take 3 (ch # rest) = TRIPLE_SQ
         then scan_text (st\<lparr>in_triple_sq := False\<rparr>) (drop 2 rest)
         else scan_text st rest)
      else if in_dq st then
        (if ch = BACKSLASH then scan_text st (drop 1 rest)
         else if ch = DQUOTE then scan_text (st\<lparr>in_dq := False\<rparr>) rest
         else scan_text st rest)
      else if in_sq st then
        (if ch = SQUOTE then scan_text (st\<lparr>in_sq := False\<rparr>) rest
         else scan_text st rest)
      else if take 3 (ch # rest) = TRIPLE_DQ then
        scan_text (st\<lparr>in_triple_dq := True\<rparr>) (drop 2 rest)
      else if take 3 (ch # rest) = TRIPLE_SQ then
        scan_text (st\<lparr>in_triple_sq := True\<rparr>) (drop 2 rest)
      else if ch = DQUOTE then scan_text (st\<lparr>in_dq := True\<rparr>) rest
      else if ch = SQUOTE then scan_text (st\<lparr>in_sq := True\<rparr>) rest
      else if ch = LBRACKET then
        scan_text (st\<lparr>depth_square := depth_square st + 1\<rparr>) rest
      else if ch = RBRACKET then
        scan_text (if depth_square st > 0
                   then st\<lparr>depth_square := depth_square st - 1\<rparr> else st) rest
      else if ch = LBRACE then
        scan_text (st\<lparr>depth_curly := depth_curly st + 1\<rparr>) rest
      else if ch = RBRACE then
        scan_text (if depth_curly st > 0
                   then st\<lparr>depth_curly := depth_curly st - 1\<rparr> else st) rest
      else if ch = HASH \<and> depth_square st = 0 \<and> depth_curly st = 0 then CommentStart
      else scan_text st rest)"

definition value_closed :: "scan_state \<Rightarrow> bool" where
  \<comment> \<open>The test at the end of a line: no bracket and no string is open.\<close>
  "value_closed st \<longleftrightarrow>
     depth_square st = 0 \<and> depth_curly st = 0 \<and>
     \<not> (in_dq st \<or> in_sq st \<or> in_triple_dq st \<or> in_triple_sq st)"

definition advance_line_text :: "ustring list \<Rightarrow> nat \<Rightarrow> int \<Rightarrow> nat \<Rightarrow> ustring" where
  "advance_line_text lines start_line start_col i =
     (if i = start_line then slice_from (lines ! i) start_col else lines ! i)"

text \<open>
  The outer \<open>while i < len(lines)\<close> loop; \<open>lines ! i\<close> is read only under that
  guard. Past the last line the result is \<open>len(lines) - 1\<close>, which is \<open>-1\<close> on an
  empty document, so the result is an integer.
\<close>

function value_block_loop ::
  "ustring list \<Rightarrow> nat \<Rightarrow> int \<Rightarrow> nat \<Rightarrow> scan_state \<Rightarrow> int" where
  "value_block_loop lines start_line start_col i st =
     (if i < length lines then
        (case scan_text st (advance_line_text lines start_line start_col i) of
           CommentStart \<Rightarrow> int i
         | EndOfLine st' \<Rightarrow>
             if value_closed st' then int i
             else value_block_loop lines start_line start_col (i + 1) st')
      else int (length lines) - 1)"
  by pat_completeness auto
termination
  by (relation "measure (\<lambda>(lines, start_line, start_col, i, st). length lines - i)") auto

declare value_block_loop.simps [simp del]

definition value_block_end :: "ustring list \<Rightarrow> nat \<Rightarrow> int \<Rightarrow> int" where
  "value_block_end lines start_line start_col =
     value_block_loop lines start_line start_col start_line scan_init"

section \<open>Canonical emission of single values\<close>

text \<open>
  The values that the delegated parser hands over. A finite float carries the text of
  Python's \<open>repr\<close> of it (\<open>str\<close> gives the same text), and a date, time or datetime
  carries the text of its \<open>isoformat()\<close>: both are computed by the runtime, not by this
  program. A table is an association list in insertion order.
\<close>

datatype pyfloat = FNan | FInf bool | FFinite ustring

datatype toml_value =
    VBool bool
  | VInt int
  | VFloat pyfloat
  | VStr ustring
  | VDateTime ustring
  | VDate ustring
  | VTime ustring
  | VTable "(ustring \<times> toml_value) list"
  | VArray "toml_value list"

definition escape_char :: "codepoint \<Rightarrow> ustring" where
  "escape_char ch =
     (if ch = BACKSLASH then [BACKSLASH, BACKSLASH]
      else if ch = DQUOTE then [BACKSLASH, DQUOTE]
      else if ch = 8 then [BACKSLASH, 98]
      else if ch = 9 then [BACKSLASH, 116]
      else if ch = 10 then [BACKSLASH, 110]
      else if ch = 13 then [BACKSLASH, 114]
      else [ch])"

definition escape_string :: "ustring \<Rightarrow> ustring" where
  "escape_string s = [DQUOTE] @ concat (map escape_char s) @ [DQUOTE]"

definition is_bare_char :: "codepoint \<Rightarrow> bool" where
  \<comment> \<open>The class \<open>[A-Za-z0-9_-]\<close>.\<close>
  "is_bare_char c \<longleftrightarrow>
     (65 \<le> c \<and> c \<le> 90) \<or> (97 \<le> c \<and> c \<le> 122) \<or> (48 \<le> c \<and> c \<le> 57) \<or> c = 95 \<or> c = 45"

definition BARE_KEY_RE_match :: "ustring \<Rightarrow> bool" where
  \<comment> \<open>\<open>^[A-Za-z0-9_-]+$\<close> under \<open>re.match\<close>: \<open>$\<close> also matches before a final newline.\<close>
  "BARE_KEY_RE_match seg \<longleftrightarrow>
     takeWhile is_bare_char seg \<noteq> [] \<and>
     (dropWhile is_bare_char seg = [] \<or> dropWhile is_bare_char seg = [LF])"

definition format_key_segment :: "ustring \<Rightarrow> ustring" where
  "format_key_segment seg = (if BARE_KEY_RE_match seg then seg else escape_string seg)"

fun str_nat :: "nat \<Rightarrow> ustring" where
  "str_nat n = (if n < 10 then [48 + int n] else str_nat (n div 10) @ [48 + int (n mod 10)])"

declare str_nat.simps [simp del]

definition str_int :: "int \<Rightarrow> ustring" where
  \<comment> \<open>Python's \<open>str\<close> of an integer.\<close>
  "str_int i = (if i < 0 then 45 # str_nat (nat (- i)) else str_nat (nat i))"

fun format_toml_value :: "toml_value \<Rightarrow> ustring" where
  "format_toml_value (VBool b) = (if b then u ''true'' else u ''false'')"
| "format_toml_value (VInt i) = str_int i"
| "format_toml_value (VFloat f) =
     (case f of
        FNan \<Rightarrow> u ''nan''
      | FInf positive \<Rightarrow> (if positive then u ''inf'' else u ''-inf'')
      | FFinite r \<Rightarrow> r)"
| "format_toml_value (VStr s) = escape_string s"
| "format_toml_value (VDateTime txt) = txt"
| "format_toml_value (VDate txt) = txt"
| "format_toml_value (VTime txt) = txt"
| "format_toml_value (VTable kvs) =
     u ''{ '' @
     join (u '', '')
       (map (\<lambda>kv. format_key_segment (fst kv) @ u '' = '' @ format_toml_value (snd kv)) kvs) @
     u '' }''"
| "format_toml_value (VArray vs) =
     u ''['' @ join (u '', '') (map format_toml_value vs) @ u '']''"

section \<open>Paths and the quote-aware tokenizer\<close>

record PathSegment =
  name :: ustring
  index :: "nat option"

definition seg :: "ustring \<Rightarrow> nat option \<Rightarrow> PathSegment" where
  "seg n i = \<lparr>name = n, index = i\<rparr>"

text \<open>
  The loop of \<open>_split_path_tokens\<close> on the text from position \<open>i\<close> on, with the buffer,
  the two quote flags and the tokens found so far. Inside double quotes a backslash
  takes the next character with it, when there is one.
\<close>

fun split_path_loop ::
  "ustring \<Rightarrow> ustring \<Rightarrow> bool \<Rightarrow> bool \<Rightarrow> ustring list \<Rightarrow> ustring list" where
  "split_path_loop [] buf dq sq out =
     (if strip buf \<noteq> [] then out @ [strip buf] else out)"
| "split_path_loop (ch # rest) buf dq sq out =
     (if dq then
        (if ch = BACKSLASH then
           (case rest of
              [] \<Rightarrow> split_path_loop [] (buf @ [ch]) dq sq out
            | e # rest' \<Rightarrow> split_path_loop rest' (buf @ [ch, e]) dq sq out)
         else if ch = DQUOTE then split_path_loop rest (buf @ [ch]) False sq out
         else split_path_loop rest (buf @ [ch]) dq sq out)
      else if sq then
        (if ch = SQUOTE then split_path_loop rest (buf @ [ch]) dq False out
         else split_path_loop rest (buf @ [ch]) dq sq out)
      else if ch = DQUOTE then split_path_loop rest (buf @ [ch]) True sq out
      else if ch = SQUOTE then split_path_loop rest (buf @ [ch]) dq True out
      else if ch = DOT then split_path_loop rest [] dq sq (out @ [strip buf])
      else split_path_loop rest (buf @ [ch]) dq sq out)"

definition split_path_tokens :: "ustring \<Rightarrow> ustring list" where
  "split_path_tokens raw = split_path_loop (strip raw) [] False False []"

definition unescape_char :: "codepoint \<Rightarrow> codepoint" where
  \<comment> \<open>The \<open>mapping\<close> table of \<open>_unquote_key\<close>, with \<open>mapping.get(esc, esc)\<close>.\<close>
  "unescape_char esc =
     (if esc = 98 then 8 else if esc = 116 then 9 else if esc = 110 then 10
      else if esc = 114 then 13 else esc)"

fun unescape_body :: "ustring \<Rightarrow> ustring" where
  "unescape_body [] = []"
| "unescape_body [ch] = (if ch = BACKSLASH then [] else [ch])"
| "unescape_body (ch # esc # rest) =
     (if ch = BACKSLASH then unescape_char esc # unescape_body rest
      else ch # unescape_body (esc # rest))"

definition unquote_key :: "ustring \<Rightarrow> ustring" where
  "unquote_key tok0 =
     (let tok = strip tok0 in
      if startswith tok [DQUOTE] \<and> endswith tok [DQUOTE] then unescape_body (butlast (tl tok))
      else if startswith tok [SQUOTE] \<and> endswith tok [SQUOTE] then butlast (tl tok)
      else tok)"

section \<open>Headers\<close>

datatype header_kind = Root | Table | Aot

record Header =
  kind :: header_kind
  path :: "ustring list"
  aot_index :: "nat option"
  start_line :: int
  end_line :: int

datatype error = KeyError | RuntimeError | IndexError | ValueError

definition id_segments :: "Header \<Rightarrow> error + PathSegment list" where
  \<comment> \<open>\<open>self.path[-1]\<close> raises on an array-of-tables header with an empty path.\<close>
  "id_segments h =
     (case kind h of
        Aot \<Rightarrow>
          (if path h = [] then Inl IndexError
           else Inr (map (\<lambda>s. seg s None) (butlast (path h)) @
                     [seg (last (path h)) (aot_index h)]))
      | Table \<Rightarrow> Inr (map (\<lambda>s. seg s None) (path h))
      | Root \<Rightarrow> Inr [])"

text \<open>
  The tail \<open>\s*(?:#.*)?$\<close> of both header patterns: white space, then nothing or a
  comment that runs to the end of the string or to a final newline.
\<close>

definition header_tail_match :: "ustring \<Rightarrow> bool" where
  "header_tail_match tail =
     (case dropWhile isspace tail of
        [] \<Rightarrow> True
      | c # cs \<Rightarrow>
          c = HASH \<and>
          (dropWhile (\<lambda>d. d \<noteq> LF) cs = [] \<or> dropWhile (\<lambda>d. d \<noteq> LF) cs = [LF]))"

text \<open>
  The lazy group \<open>(?P<body>.+?)\<close> followed by the closing brackets and the tail: the
  shortest non-empty body without a newline after which the rest of the pattern matches.
\<close>

fun lazy_body :: "ustring \<Rightarrow> ustring \<Rightarrow> ustring \<Rightarrow> ustring option" where
  "lazy_body close acc [] = None"
| "lazy_body close acc (c # rest) =
     (if acc \<noteq> [] \<and> take (length close) (c # rest) = close \<and>
         header_tail_match (drop (length close) (c # rest))
      then Some acc
      else if c = LF then None
      else lazy_body close (acc @ [c]) rest)"

definition HEADER_TABLE_RE_match :: "ustring \<Rightarrow> ustring option" where
  \<comment> \<open>\<open>^\s*\[(?!\[)(?P<body>.+?)\]\s*(?:#.*)?$\<close>, giving the group \<open>body\<close>.\<close>
  "HEADER_TABLE_RE_match line =
     (case dropWhile isspace line of
        [] \<Rightarrow> None
      | c # rest \<Rightarrow>
          if c = LBRACKET \<and> \<not> startswith rest [LBRACKET]
          then lazy_body [RBRACKET] [] rest else None)"

definition HEADER_AOT_RE_match :: "ustring \<Rightarrow> ustring option" where
  \<comment> \<open>\<open>^\s*\[\[(?P<body>.+?)\]\]\s*(?:#.*)?$\<close>, giving the group \<open>body\<close>.\<close>
  "HEADER_AOT_RE_match line =
     (if startswith (dropWhile isspace line) [LBRACKET, LBRACKET]
      then lazy_body [RBRACKET, RBRACKET] [] (drop 2 (dropWhile isspace line))
      else None)"

definition parse_header_line :: "ustring \<Rightarrow> (header_kind \<times> ustring list) option" where
  "parse_header_line line =
     (case HEADER_TABLE_RE_match line of
        Some body \<Rightarrow> Some (Table, map unquote_key (split_path_tokens (strip body)))
      | None \<Rightarrow>
          (case HEADER_AOT_RE_match line of
             Some body \<Rightarrow> Some (Aot, map unquote_key (split_path_tokens (strip body)))
           | None \<Rightarrow> None))"

definition is_comment_or_blank :: "ustring \<Rightarrow> bool" where
  "is_comment_or_blank line \<longleftrightarrow> strip line = [] \<or> startswith (strip line) [HASH]"

text \<open>
  The first loop of \<open>index_headers\<close>: \<open>i\<close> is the index of the line at the head of the
  remaining lines, \<open>aot_counters\<close> the dictionary of occurrence counts.
\<close>

fun collect_headers ::
  "ustring list \<Rightarrow> nat \<Rightarrow> (ustring list \<rightharpoonup> nat) \<Rightarrow> Header list \<Rightarrow> Header list" where
  "collect_headers [] i aot_counters headers = headers"
| "collect_headers (line # rest) i aot_counters headers =
     (case parse_header_line line of
        None \<Rightarrow> collect_headers rest (i + 1) aot_counters headers
      | Some (k, p) \<Rightarrow>
          if k = Aot then
            (let idx = (case aot_counters p of None \<Rightarrow> 0 | Some n \<Rightarrow> n) in
             collect_headers rest (i + 1) (aot_counters(p \<mapsto> idx + 1))
               (headers @ [\<lparr>kind = Aot, path = p, aot_index = Some idx,
                             start_line = int i, end_line = int i\<rparr>]))
          else
            collect_headers rest (i + 1) aot_counters
              (headers @ [\<lparr>kind = Table, path = p, aot_index = None,
                            start_line = int i, end_line = int i\<rparr>]))"

definition root_header :: Header where
  "root_header = \<lparr>kind = Root, path = [], aot_index = None, start_line = - 1, end_line = - 1\<rparr>"

text \<open>
  The trimming loop \<open>while j > h.start_line and _is_comment_or_blank(lines[j])\<close>. It is
  entered with \<open>j\<close> below the number of lines and reads \<open>lines[j]\<close> only for \<open>j\<close> above a
  start line that is not negative.
\<close>

function trim_back :: "ustring list \<Rightarrow> int \<Rightarrow> int \<Rightarrow> int" where
  "trim_back lines start j =
     (if j > start \<and> is_comment_or_blank (lines ! nat j) then trim_back lines start (j - 1)
      else j)"
  by pat_completeness auto
termination
  by (relation "measure (\<lambda>(lines, start, j). nat (j - start))") auto

declare trim_back.simps [simp del]

definition next_start :: "ustring list \<Rightarrow> Header list \<Rightarrow> nat \<Rightarrow> int" where
  "next_start lines headers h_idx =
     (if h_idx + 1 < length headers then start_line (headers ! (h_idx + 1))
      else int (length lines))"

text \<open>
  One round of the second loop. The loop stores \<open>end_line\<close> into the header and reads only
  the \<open>start_line\<close> of the next one, which no round changes, so every round can read the
  list as the first loop left it.
\<close>

definition set_end_line :: "ustring list \<Rightarrow> Header list \<Rightarrow> nat \<Rightarrow> Header" where
  "set_end_line lines headers h_idx =
     (let h = headers ! h_idx in
      if kind h = Root then h\<lparr>end_line := next_start lines headers h_idx - 1\<rparr>
      else h\<lparr>end_line := trim_back lines (start_line h) (next_start lines headers h_idx - 1)\<rparr>)"

definition index_headers :: "ustring list \<Rightarrow> Header list" where
  "index_headers lines =
     (let headers = collect_headers lines 0 Map.empty [root_header]
      in map (set_end_line lines headers) [0..<length headers])"

section \<open>Section resolution\<close>

fun segments_equal_loop :: "PathSegment list \<Rightarrow> PathSegment list \<Rightarrow> bool" where
  "segments_equal_loop (sa # a) (sb # b) =
     (if name sa \<noteq> name sb then False
      else if index sa \<noteq> index sb then False
      else segments_equal_loop a b)"
| "segments_equal_loop a b = True"

definition segments_equal :: "PathSegment list \<Rightarrow> PathSegment list \<Rightarrow> bool" where
  "segments_equal a b = (if length a \<noteq> length b then False else segments_equal_loop a b)"

definition section_of :: "Header \<Rightarrow> Header \<times> int \<times> int" where
  \<comment> \<open>\<open>return h, h.start_line + 1, h.end_line\<close>\<close>
  "section_of h = (h, start_line h + 1, end_line h)"

definition find_section_block ::
  "Header list \<Rightarrow> PathSegment list \<Rightarrow> error + (Header \<times> int \<times> int)" where
  "find_section_block headers target =
     (if target = [] then
        (case filter (\<lambda>h. kind h = Root) headers of
           [] \<Rightarrow> Inl RuntimeError
         | h # _ \<Rightarrow> Inr (section_of h))
      else if index (last target) \<noteq> None then
        (let table_path = map name (butlast target) @ [name (last target)];
             wanted_idx = index (last target);
             candidates = filter (\<lambda>h. kind h = Aot \<and> path h = table_path \<and>
                                       aot_index h = wanted_idx) headers
         in case candidates of
              [] \<Rightarrow> Inl KeyError
            | h # _ \<Rightarrow> Inr (section_of h))
      else
        (let table_path = map name target;
             candidates = filter (\<lambda>h. kind h = Table \<and> path h = table_path) headers
         in case candidates of
              h # _ \<Rightarrow> Inr (section_of h)
            | [] \<Rightarrow>
                (let aot_candidates = filter (\<lambda>h. kind h = Aot \<and> path h = table_path) headers
                 in if length aot_candidates = 0 then Inl KeyError
                    else if length aot_candidates > 1 then Inl RuntimeError
                    else Inr (section_of (hd aot_candidates)))))"

section \<open>Assignment location\<close>

definition parse_assignment_key_segments :: "ustring \<Rightarrow> ustring list option" where
  "parse_assignment_key_segments lhs0 =
     (let lhs = strip lhs0 in
      if lhs = [] \<or> startswith lhs [HASH] then None
      else Some (map unquote_key (split_path_tokens lhs)))"

text \<open>
  \<open>_find_equals_outside_quotes\<close> looks back at \<open>line[i - 1]\<close>, so the loop runs on the
  index. The result is the index of the sign, or \<open>-1\<close>.
\<close>

function find_equals_loop :: "ustring \<Rightarrow> nat \<Rightarrow> bool \<Rightarrow> bool \<Rightarrow> int" where
  "find_equals_loop line i dq sq =
     (if i < length line then
        (if line ! i = DQUOTE \<and> \<not> sq then
           (if i > 0 \<and> line ! (i - 1) = BACKSLASH then find_equals_loop line (i + 1) dq sq
            else find_equals_loop line (i + 1) (\<not> dq) sq)
         else if line ! i = SQUOTE \<and> \<not> dq then find_equals_loop line (i + 1) dq (\<not> sq)
         else if line ! i = EQUALS \<and> \<not> dq \<and> \<not> sq then int i
         else find_equals_loop line (i + 1) dq sq)
      else - 1)"
  by pat_completeness auto
termination
  by (relation "measure (\<lambda>(line, i, dq, sq). length line - i)") auto

declare find_equals_loop.simps [simp del]

definition find_equals_outside_quotes :: "ustring \<Rightarrow> int" where
  "find_equals_outside_quotes line = find_equals_loop line 0 False False"

type_synonym assignment_match = "int \<times> int \<times> ustring list"

text \<open>
  What the loop of \<open>find_assignment_block_by_full_path\<close> does with line \<open>i\<close>: nothing
  (\<open>continue\<close>), a new entry of \<open>matches\<close>, or the exception of \<open>id_segments\<close>.
\<close>

datatype line_result = Skip | Match assignment_match | Raise error

definition examine_line ::
  "ustring list \<Rightarrow> Header \<Rightarrow> PathSegment list \<Rightarrow> nat \<Rightarrow> line_result" where
  "examine_line lines header full_path i =
     (let line = lines ! i; stripped = lstrip line in
      if stripped = [] \<or> startswith stripped [HASH] \<or> startswith stripped [LBRACKET] then Skip
      else
        (let eq_pos = find_equals_outside_quotes line in
         if eq_pos = - 1 then Skip
         else
           (case parse_assignment_key_segments (slice_to line eq_pos) of
              None \<Rightarrow> Skip
            | Some ksegs \<Rightarrow>
                if ksegs = [] then Skip
                else
                  (case id_segments header of
                     Inl e \<Rightarrow> Raise e
                   | Inr ids \<Rightarrow>
                       if segments_equal (ids @ map (\<lambda>n. seg n None) ksegs) full_path
                       then Match (int i, value_block_end lines i (eq_pos + 1), ksegs)
                       else Skip))))"

function assignment_loop ::
  "ustring list \<Rightarrow> Header \<Rightarrow> PathSegment list \<Rightarrow> int \<Rightarrow> nat \<Rightarrow> assignment_match list \<Rightarrow>
   error + assignment_match list" where
  "assignment_loop lines header full_path end i matches =
     (if int i \<le> end \<and> i < length lines then
        (case examine_line lines header full_path i of
           Skip \<Rightarrow> assignment_loop lines header full_path end (i + 1) matches
         | Match m \<Rightarrow> assignment_loop lines header full_path end (i + 1) (matches @ [m])
         | Raise e \<Rightarrow> Inl e)
      else Inr matches)"
  by pat_completeness auto
termination
  by (relation "measure (\<lambda>(lines, header, full_path, end, i, matches). length lines - i)") auto

declare assignment_loop.simps [simp del]

definition find_assignment_block_by_full_path ::
  "ustring list \<Rightarrow> Header list \<Rightarrow> PathSegment list \<Rightarrow> error + assignment_match" where
  "find_assignment_block_by_full_path lines headers full_path =
     (if full_path = [] then Inl KeyError
      else
        (let table_path = butlast full_path in
         case find_section_block headers table_path of
           Inl e \<Rightarrow> Inl e
         | Inr (header, start, end) \<Rightarrow>
             (case assignment_loop lines header full_path end (nat (max start 0)) [] of
                Inl e \<Rightarrow> Inl e
              | Inr matches \<Rightarrow>
                  if matches = [] then
                    (if table_path \<noteq> [] \<and> index (last table_path) = None \<and>
                        length (filter (\<lambda>h. kind h = Aot \<and> path h = map name table_path)
                                  headers) > 1
                     then Inl RuntimeError else Inl KeyError)
                  else if length matches > 1 then Inl RuntimeError
                  else Inr (hd matches))))"

section \<open>Top-of-file comment replacement\<close>

text \<open>The scan \<open>while i < len(lines)\<close> over the leading blank or comment lines.\<close>

function top_comment_end :: "ustring list \<Rightarrow> nat \<Rightarrow> nat" where
  "top_comment_end lines i =
     (if i < length lines then
        (if strip (lines ! i) = [] \<or> startswith (strip (lines ! i)) [HASH]
         then top_comment_end lines (i + 1) else i)
      else i)"
  by pat_completeness auto
termination
  by (relation "measure (\<lambda>(lines, i). length lines - i)") auto

declare top_comment_end.simps [simp del]

fun comment_lines :: "ustring list \<Rightarrow> ustring list \<Rightarrow> ustring list" where
  \<comment> \<open>The \<open>for raw_line in new_text.splitlines()\<close> loop, appending to \<open>new_lines\<close>.\<close>
  "comment_lines [] new_lines = new_lines"
| "comment_lines (raw_line # rest) new_lines =
     (if strip raw_line = [] then comment_lines rest (new_lines @ [[HASH, LF]])
      else comment_lines rest (new_lines @ [[HASH, 32] @ rstrip raw_line @ [LF]]))"

definition replace_top_comment_block :: "ustring \<Rightarrow> ustring option \<Rightarrow> ustring" where
  "replace_top_comment_block text new_text =
     (let lines = splitlines True text;
          i = top_comment_end lines 0;
          new_lines = (case new_text of
                         None \<Rightarrow> []
                       | Some t \<Rightarrow> comment_lines (splitlines False t) [] @ [[LF]])
      in concat (new_lines @ drop i lines))"

section \<open>Patching operations\<close>

record SetPatch =
  set_path :: "PathSegment list"
  value_src :: ustring
  value_obj :: toml_value
  comment :: "ustring option"

text \<open>
  A patch operation ends the process with \<open>sys.exit\<close> on the two exceptions it catches;
  any other exception leaves it uncaught.
\<close>

datatype abort = SysExit nat | Uncaught error

definition resolution_abort :: "error \<Rightarrow> abort" where
  "resolution_abort e =
     (case e of KeyError \<Rightarrow> SysExit 2 | RuntimeError \<Rightarrow> SysExit 3 | _ \<Rightarrow> Uncaught e)"

definition set_line :: "ustring list \<Rightarrow> SetPatch \<Rightarrow> ustring" where
  \<comment> \<open>The replacement line of \<open>apply_set\<close>.\<close>
  "set_line ksegs setp =
     (let lhs = join [DOT] (map format_key_segment ksegs);
          rhs = format_toml_value (value_obj setp)
      in if comment setp \<noteq> None \<and> comment setp \<noteq> Some []
         then lhs @ u '' = '' @ rhs @ u '' # '' @ the (comment setp) @ [LF]
         else lhs @ u '' = '' @ rhs @ [LF])"

definition apply_set :: "ustring list \<Rightarrow> SetPatch \<Rightarrow> abort + ustring list" where
  "apply_set lines setp =
     (case find_assignment_block_by_full_path lines (index_headers lines) (set_path setp) of
        Inl e \<Rightarrow> Inl (resolution_abort e)
      | Inr (start, end, ksegs) \<Rightarrow>
          Inr (slice_to lines start @ [set_line ksegs setp] @ slice_from lines (end + 1)))"

definition apply_delete_key :: "ustring list \<Rightarrow> PathSegment list \<Rightarrow> abort + ustring list" where
  "apply_delete_key lines delp =
     (case find_assignment_block_by_full_path lines (index_headers lines) delp of
        Inl e \<Rightarrow> Inl (resolution_abort e)
      | Inr (start, end, ksegs) \<Rightarrow> Inr (slice_to lines start @ slice_from lines (end + 1)))"

definition apply_delete_section :: "ustring list \<Rightarrow> PathSegment list \<Rightarrow> abort + ustring list" where
  "apply_delete_section lines delsec =
     (case find_section_block (index_headers lines) delsec of
        Inl e \<Rightarrow> Inl (resolution_abort e)
      | Inr (header, start, end) \<Rightarrow>
          if kind header = Root then Inl (SysExit 4)
          else Inr (slice_to lines (start_line header) @ slice_from lines (end + 1)))"

section \<open>Patch specifications from the command line\<close>

text \<open>
  The two scans of \<open>split_set_expression\<close> for a character outside quotes; here a quote
  toggles its flag whatever precedes it. The result is the index, or \<open>-1\<close>.
\<close>

fun find_unquoted :: "codepoint \<Rightarrow> ustring \<Rightarrow> nat \<Rightarrow> bool \<Rightarrow> bool \<Rightarrow> int" where
  "find_unquoted target [] i dq sq = - 1"
| "find_unquoted target (ch # rest) i dq sq =
     (if ch = DQUOTE \<and> \<not> sq then find_unquoted target rest (i + 1) (\<not> dq) sq
      else if ch = SQUOTE \<and> \<not> dq then find_unquoted target rest (i + 1) dq (\<not> sq)
      else if ch = target \<and> \<not> dq \<and> \<not> sq then int i
      else find_unquoted target rest (i + 1) dq sq)"

definition split_set_expression :: "ustring \<Rightarrow> error + (ustring \<times> ustring \<times> ustring option)" where
  "split_set_expression s =
     (let eq_pos = find_unquoted EQUALS s 0 False False in
      if eq_pos = - 1 then Inl ValueError
      else
        (let path_str = strip (slice_to s eq_pos);
             rhs = strip (slice_from s (eq_pos + 1))
         in if path_str = [] then Inl ValueError
            else
              (let hash_pos = find_unquoted HASH rhs 0 False False;
                   value_text = (if hash_pos \<noteq> - 1 then rstrip (slice_to rhs hash_pos) else rhs);
                   trailing = (if hash_pos \<noteq> - 1 then Some (strip (slice_from rhs (hash_pos + 1)))
                               else None)
               in if value_text = [] then Inl ValueError
                  else Inr (path_str, value_text, trailing))))"

text \<open>
  \<open>_INDEX_RE\<close> is \<open>^(?P<name>.+?)\[(?P<idx>\d+)\]$\<close>. Which code points are decimal
  digits, and their values under \<open>int\<close>, is a table of the runtime: the parameter
  \<open>digit_value\<close>.
\<close>

definition index_suffix_match :: "(codepoint \<Rightarrow> nat option) \<Rightarrow> ustring \<Rightarrow> ustring option" where
  \<comment> \<open>\<open>\[(?P<idx>\d+)\]$\<close> at the start of the text, giving the group \<open>idx\<close>.\<close>
  "index_suffix_match digit_value t =
     (case t of
        [] \<Rightarrow> None
      | c # r \<Rightarrow>
          if c = LBRACKET \<and> takeWhile (\<lambda>d. digit_value d \<noteq> None) r \<noteq> [] \<and>
             (dropWhile (\<lambda>d. digit_value d \<noteq> None) r = [RBRACKET] \<or>
              dropWhile (\<lambda>d. digit_value d \<noteq> None) r = [RBRACKET, LF])
          then Some (takeWhile (\<lambda>d. digit_value d \<noteq> None) r)
          else None)"

fun lazy_name ::
  "(codepoint \<Rightarrow> nat option) \<Rightarrow> ustring \<Rightarrow> ustring \<Rightarrow> (ustring \<times> ustring) option" where
  "lazy_name digit_value acc [] = None"
| "lazy_name digit_value acc (c # rest) =
     (if acc \<noteq> [] \<and> index_suffix_match digit_value (c # rest) \<noteq> None
      then Some (acc, the (index_suffix_match digit_value (c # rest)))
      else if c = LF then None
      else lazy_name digit_value (acc @ [c]) rest)"

definition INDEX_RE_match :: "(codepoint \<Rightarrow> nat option) \<Rightarrow> ustring \<Rightarrow> (ustring \<times> ustring) option" where
  "INDEX_RE_match digit_value t = lazy_name digit_value [] t"

definition int_of_digits :: "(codepoint \<Rightarrow> nat option) \<Rightarrow> ustring \<Rightarrow> nat" where
  \<comment> \<open>\<open>int(m.group("idx"))\<close> on a non-empty run of decimal digits.\<close>
  "int_of_digits digit_value ds =
     foldl (\<lambda>acc d. 10 * acc + (case digit_value d of None \<Rightarrow> 0 | Some v \<Rightarrow> v)) 0 ds"

definition parse_segment :: "(codepoint \<Rightarrow> nat option) \<Rightarrow> ustring \<Rightarrow> PathSegment" where
  "parse_segment digit_value t0 =
     (let t = strip t0 in
      case INDEX_RE_match digit_value t of
        Some (nm, idx) \<Rightarrow> seg (unquote_key (strip nm)) (Some (int_of_digits digit_value idx))
      | None \<Rightarrow> seg (unquote_key t) None)"

definition parse_path_with_indices :: "(codepoint \<Rightarrow> nat option) \<Rightarrow> ustring \<Rightarrow> PathSegment list" where
  "parse_path_with_indices digit_value p =
     map (parse_segment digit_value) (split_path_tokens p)"

section \<open>The driver\<close>

text \<open>
  The delegated parser \<open>tomllib.loads\<close> is a parameter: it gives the top-level table of a
  document, or \<open>None\<close> where it raises.
\<close>

type_synonym toml_loader = "ustring \<Rightarrow> (ustring \<times> toml_value) list option"

definition parse_toml_value :: "toml_loader \<Rightarrow> ustring \<Rightarrow> error + toml_value" where
  "parse_toml_value loads src =
     (case loads (u ''__k__ = '' @ src @ [LF]) of
        None \<Rightarrow> Inl ValueError
      | Some obj \<Rightarrow>
          (case map_of obj (u ''__k__'') of None \<Rightarrow> Inl KeyError | Some v \<Rightarrow> Inr v))"

definition validate_toml_document :: "toml_loader \<Rightarrow> ustring \<Rightarrow> error + unit" where
  "validate_toml_document loads text =
     (case loads text of None \<Rightarrow> Inl ValueError | Some obj \<Rightarrow> Inr ())"

text \<open>
  How a run stops before its end: \<open>main\<close> returns an exit code, or a patch operation ends
  the process.
\<close>

datatype stop = Returned nat | Aborted abort

record Args =
  sets :: "ustring list"
  del_keys :: "ustring list"
  del_secs :: "ustring list"
  top_comment :: "ustring option"

definition set_step ::
  "(codepoint \<Rightarrow> nat option) \<Rightarrow> toml_loader \<Rightarrow> ustring list \<Rightarrow> ustring \<Rightarrow> stop + ustring list" where
  \<comment> \<open>The body of \<open>for spec in args.sets\<close>.\<close>
  "set_step digit_value loads lines spec =
     (case split_set_expression spec of
        Inl e \<Rightarrow> Inl (Returned 4)
      | Inr (path_str, src, trailing) \<Rightarrow>
          (case parse_toml_value loads src of
             Inl e \<Rightarrow> (if e = ValueError then Inl (Returned 4) else Inl (Aborted (Uncaught e)))
           | Inr obj \<Rightarrow>
               (case apply_set lines
                       \<lparr>set_path = parse_path_with_indices digit_value path_str,
                        value_src = src, value_obj = obj, comment = trailing\<rparr> of
                  Inl a \<Rightarrow> Inl (Aborted a)
                | Inr lines' \<Rightarrow> Inr lines')))"

definition delete_key_step ::
  "(codepoint \<Rightarrow> nat option) \<Rightarrow> ustring list \<Rightarrow> ustring \<Rightarrow> stop + ustring list" where
  \<comment> \<open>The body of \<open>for pth in args.del_keys\<close>; the path parser raises nothing.\<close>
  "delete_key_step digit_value lines pth =
     (case apply_delete_key lines (parse_path_with_indices digit_value pth) of
        Inl a \<Rightarrow> Inl (Aborted a)
      | Inr lines' \<Rightarrow> Inr lines')"

definition delete_section_step ::
  "(codepoint \<Rightarrow> nat option) \<Rightarrow> ustring list \<Rightarrow> ustring \<Rightarrow> stop + ustring list" where
  \<comment> \<open>The body of \<open>for pth in args.del_secs\<close>.\<close>
  "delete_section_step digit_value lines pth =
     (case apply_delete_section lines (parse_path_with_indices digit_value pth) of
        Inl a \<Rightarrow> Inl (Aborted a)
      | Inr lines' \<Rightarrow> Inr lines')"

fun for_each :: "('s \<Rightarrow> 'a \<Rightarrow> stop + 's) \<Rightarrow> 's \<Rightarrow> 'a list \<Rightarrow> stop + 's" where
  \<comment> \<open>A \<open>for\<close> loop that a \<open>return\<close> or an exit of its body leaves.\<close>
  "for_each body st [] = Inr st"
| "for_each body st (x # xs) =
     (case body st x of Inl e \<Rightarrow> Inl e | Inr st' \<Rightarrow> for_each body st' xs)"

text \<open>
  \<open>main\<close>, from the text read from the input path (\<open>None\<close> when reading fails) and whether
  the output path can be written. The result is the way the run ends and the text
  written to the output path, \<open>None\<close> when the run does not write the file.
\<close>

definition main ::
  "(codepoint \<Rightarrow> nat option) \<Rightarrow> toml_loader \<Rightarrow> ustring option \<Rightarrow> bool \<Rightarrow> Args \<Rightarrow> stop \<times> ustring option" where
  "main digit_value loads input writable args =
     (case input of
        None \<Rightarrow> (Returned 1, None)
      | Some text0 \<Rightarrow>
          (case validate_toml_document loads text0 of
             Inl e \<Rightarrow> (Returned 1, None)
           | Inr _ \<Rightarrow>
               (let text = (case top_comment args of
                              None \<Rightarrow> text0
                            | Some c \<Rightarrow> replace_top_comment_block text0 (Some c));
                    lines = splitlines True text
                in case for_each (set_step digit_value loads) lines (sets args) of
                     Inl e \<Rightarrow> (e, None)
                   | Inr lines1 \<Rightarrow>
                       (case for_each (delete_key_step digit_value) lines1 (del_keys args) of
                          Inl e \<Rightarrow> (e, None)
                        | Inr lines2 \<Rightarrow>
                            (case for_each (delete_section_step digit_value) lines2
                                    (del_secs args) of
                               Inl e \<Rightarrow> (e, None)
                             | Inr lines3 \<Rightarrow>
                                 if writable then (Returned 0, Some (concat lines3))
                                 else (Returned 5, None))))))"

section \<open>Notions used in the statements\<close>

text \<open>
  The state in which the scanner reaches the end of the \<open>k\<close>-th line from the start line,
  when it has not returned before, and the lines on which it returns: at a comment sign
  met outside every string and bracket, or at the end of a line that leaves nothing open.
\<close>

primrec state_after :: "ustring list \<Rightarrow> nat \<Rightarrow> int \<Rightarrow> nat \<Rightarrow> scan_state" where
  "state_after lines first_line col 0 = scan_init"
| "state_after lines first_line col (Suc k) =
     (case scan_text (state_after lines first_line col k)
             (advance_line_text lines first_line col (first_line + k)) of
        CommentStart \<Rightarrow> state_after lines first_line col k
      | EndOfLine st' \<Rightarrow> st')"

definition ends_on :: "ustring list \<Rightarrow> nat \<Rightarrow> int \<Rightarrow> nat \<Rightarrow> bool" where
  "ends_on lines first_line col i \<longleftrightarrow>
     (case scan_text (state_after lines first_line col (i - first_line))
             (advance_line_text lines first_line col i) of
        CommentStart \<Rightarrow> True
      | EndOfLine st' \<Rightarrow> value_closed st')"


definition doc_open :: "ustring list" where
  \<comment> \<open>A multi-line string that the document never closes.\<close>
  "doc_open = [u ''x = '' @ TRIPLE_DQ @ u ''abc'' @ [LF], u ''y = 1'' @ [LF]]"

definition doc_groups :: "ustring list" where
  \<comment> \<open>Two occurrences of one array of tables.\<close>
  "doc_groups = [u ''[[group]]'' @ [LF], u ''field = 1'' @ [LF],
                 u ''[[group]]'' @ [LF], u ''field = 2'' @ [LF]]"

text \<open>
  The comment line that the specification gives for one line of the replacement text of
  the top comment.
\<close>

definition render_comment_line :: "ustring \<Rightarrow> ustring" where
  "render_comment_line raw_line =
     (if strip raw_line = [] then [HASH, LF] else [HASH, 32] @ rstrip raw_line @ [LF])"

text \<open>
  The count that the dictionary \<open>aot_counters\<close> holds for a path (\<open>get(key, 0)\<close>), and the
  header list as the first loop of \<open>index_headers\<close> leaves it.
\<close>

definition counter_of :: "(ustring list \<rightharpoonup> nat) \<Rightarrow> ustring list \<Rightarrow> nat" where
  "counter_of aot_counters p = (case aot_counters p of None \<Rightarrow> 0 | Some n \<Rightarrow> n)"

definition first_pass :: "ustring list \<Rightarrow> Header list" where
  "first_pass lines = collect_headers lines 0 Map.empty [root_header]"

definition doc_root_comment :: "ustring list" where
  \<comment> \<open>A root assignment, a comment line, then a table.\<close>
  "doc_root_comment =
     [u ''a = 1'' @ [LF], u ''# note'' @ [LF], u ''[t]'' @ [LF], u ''b = 2'' @ [LF]]"

definition doc_trim :: "ustring list" where
  \<comment> \<open>A table followed by an empty line and a comment that belong to the next table.\<close>
  "doc_trim = [u ''[t]'' @ [LF], u ''b = 2'' @ [LF], [LF], u ''# about u'' @ [LF],
               u ''[u]'' @ [LF], u ''c = 3'' @ [LF]]"









text \<open>
  The requested operations of a run in the order in which \<open>main\<close> applies them, one step
  of the run, and the lines with which the loops of \<open>main\<close> start.
\<close>

datatype operation = OpSet ustring | OpDeleteKey ustring | OpDeleteSection ustring

definition requested_ops :: "Args \<Rightarrow> operation list" where
  "requested_ops args =
     map OpSet (sets args) @ map OpDeleteKey (del_keys args) @ map OpDeleteSection (del_secs args)"

definition apply_op ::
  "(codepoint \<Rightarrow> nat option) \<Rightarrow> toml_loader \<Rightarrow> ustring list \<Rightarrow> operation \<Rightarrow> stop + ustring list" where
  "apply_op digit_value loads lines op =
     (case op of
        OpSet spec \<Rightarrow> set_step digit_value loads lines spec
      | OpDeleteKey pth \<Rightarrow> delete_key_step digit_value lines pth
      | OpDeleteSection pth \<Rightarrow> delete_section_step digit_value lines pth)"

definition initial_lines :: "ustring \<Rightarrow> Args \<Rightarrow> ustring list" where
  "initial_lines text0 args =
     splitlines True
       (case top_comment args of
          None \<Rightarrow> text0
        | Some c \<Rightarrow> replace_top_comment_block text0 (Some c))"

text \<open>
  How an operation fails on a document, in terms of the payload parsers and of the path
  resolver alone: the exception raised while its payload is parsed (only a set operation
  has a payload that can fail), and the exception with which its path fails to resolve in
  the document. \<open>KeyError\<close> is a path that is not found, \<open>RuntimeError\<close> an ambiguous
  one, \<open>ValueError\<close> a malformed payload.
\<close>

definition payload_error :: "toml_loader \<Rightarrow> operation \<Rightarrow> error option" where
  "payload_error loads op =
     (case op of
        OpSet spec \<Rightarrow>
          (case split_set_expression spec of
             Inl e \<Rightarrow> Some e
           | Inr (path_str, src, trailing) \<Rightarrow>
               (case parse_toml_value loads src of Inl e \<Rightarrow> Some e | Inr obj \<Rightarrow> None))
      | OpDeleteKey pth \<Rightarrow> None
      | OpDeleteSection pth \<Rightarrow> None)"

definition resolution_error ::
  "(codepoint \<Rightarrow> nat option) \<Rightarrow> ustring list \<Rightarrow> operation \<Rightarrow> error option" where
  "resolution_error digit_value lines op =
     (case op of
        OpSet spec \<Rightarrow>
          (case split_set_expression spec of
             Inl e \<Rightarrow> None
           | Inr (path_str, src, trailing) \<Rightarrow>
               (case find_assignment_block_by_full_path lines (index_headers lines)
                       (parse_path_with_indices digit_value path_str) of
                  Inl e \<Rightarrow> Some e
                | Inr m \<Rightarrow> None))
      | OpDeleteKey pth \<Rightarrow>
          (case find_assignment_block_by_full_path lines (index_headers lines)
                  (parse_path_with_indices digit_value pth) of
             Inl e \<Rightarrow> Some e
           | Inr m \<Rightarrow> None)
      | OpDeleteSection pth \<Rightarrow>
          (case find_section_block (index_headers lines)
                  (parse_path_with_indices digit_value pth) of
             Inl e \<Rightarrow> Some e
           | Inr s \<Rightarrow> None))"

text \<open>Parameters and inputs for the examples of a run.\<close>

definition ascii_digit :: "codepoint \<Rightarrow> nat option" where
  \<comment> \<open>A digit table that knows the ASCII digits.\<close>
  "ascii_digit c = (if 48 \<le> c \<and> c \<le> 57 then Some (nat (c - 48)) else None)"

definition toy_loads :: toml_loader where
  \<comment> \<open>A loader that accepts every document and knows one value snippet.\<close>
  "toy_loads text =
     (if text = u ''__k__ = 4'' @ [LF] then Some [(u ''__k__'', VInt 4)] else Some [])"

definition doc_logger :: ustring where
  "doc_logger = u ''[logger]'' @ [LF] @ u ''stdout_level = 1'' @ [LF] @ u ''file_level = 1'' @ [LF]"

definition args_second_fails :: Args where
  "args_second_fails = \<lparr>sets = [u ''logger.stdout_level = 4'', u ''logger.missing = 4''],
                         del_keys = [], del_secs = [], top_comment = None\<rparr>"

definition args_all_succeed :: Args where
  "args_all_succeed = \<lparr>sets = [u ''logger.stdout_level = 4'', u ''logger.file_level = 4''],
                        del_keys = [], del_secs = [], top_comment = None\<rparr>"

definition doc_logger_after_first :: "ustring list" where
  "doc_logger_after_first =
     [u ''[logger]'' @ [LF], u ''stdout_level = 4'' @ [LF], u ''file_level = 1'' @ [LF]]"

definition doc_logger_done :: ustring where
  "doc_logger_done =
     u ''[logger]'' @ [LF] @ u ''stdout_level = 4'' @ [LF] @ u ''file_level = 4'' @ [LF]"

definition args_malformed :: Args where
  \<comment> \<open>The second set expression has no equals sign.\<close>
  "args_malformed = \<lparr>sets = [u ''logger.stdout_level = 4'', u ''logger.file_level''],
                      del_keys = [], del_secs = [], top_comment = None\<rparr>"

definition args_ambiguous :: Args where
  \<comment> \<open>A key of an array of tables, asked for without an index.\<close>
  "args_ambiguous = \<lparr>sets = [], del_keys = [u ''group.field''], del_secs = [],
                      top_comment = None\<rparr>"

definition args_no_section :: Args where
  \<comment> \<open>A section that no document here has.\<close>
  "args_no_section = \<lparr>sets = [], del_keys = [], del_secs = [u ''missing''],
                       top_comment = None\<rparr>"

definition doc_groups_text :: ustring where
  "doc_groups_text = concat doc_groups"

section \<open>Properties of the value-boundary scanner\<close>

lemma loop_stop:
  assumes "s \<le> i" "i < length lines" "ends_on lines s c i"
  shows "value_block_loop lines s c i (state_after lines s c (i - s)) = int i"
  using assms
  by (subst value_block_loop.simps) (auto simp: ends_on_def split: line_outcome.splits)

lemma loop_continue:
  assumes "s \<le> i" "i < length lines" "\<not> ends_on lines s c i"
  shows "value_block_loop lines s c i (state_after lines s c (i - s)) =
         value_block_loop lines s c (Suc i) (state_after lines s c (Suc i - s))"
proof -
  from assms(1) have e: "Suc i - s = Suc (i - s)" by simp
  from assms(1) have f: "s + (i - s) = i" by simp
  show ?thesis
    using assms
    by (subst value_block_loop.simps) (auto simp: ends_on_def e f split: line_outcome.splits)
qed

lemma loop_first:
  assumes "s \<le> i" "i \<le> r" "r < length lines" "ends_on lines s c r"
    "\<forall>j. i \<le> j \<and> j < r \<longrightarrow> \<not> ends_on lines s c j"
  shows "value_block_loop lines s c i (state_after lines s c (i - s)) = int r"
  using assms
proof (induction "r - i" arbitrary: i)
  case 0
  then have "i = r" by simp
  with 0 show ?case by (simp add: loop_stop)
next
  case (Suc n)
  then have lt: "i < r" by simp
  with Suc.prems have ne: "\<not> ends_on lines s c i" by simp
  have "value_block_loop lines s c i (state_after lines s c (i - s)) =
        value_block_loop lines s c (Suc i) (state_after lines s c (Suc i - s))"
    using Suc.prems lt ne by (intro loop_continue) auto
  also have "\<dots> = int r"
    using Suc.hyps Suc.prems lt by (intro Suc.hyps(1)) auto
  finally show ?case .
qed

lemma loop_none:
  assumes "s \<le> i" "i \<le> length lines"
    "\<forall>j. i \<le> j \<and> j < length lines \<longrightarrow> \<not> ends_on lines s c j"
  shows "value_block_loop lines s c i (state_after lines s c (i - s)) = int (length lines) - 1"
  using assms
proof (induction "length lines - i" arbitrary: i)
  case 0
  then show ?case by (subst value_block_loop.simps) simp
next
  case (Suc n)
  then have lt: "i < length lines" by simp
  with Suc.prems have ne: "\<not> ends_on lines s c i" by simp
  have "value_block_loop lines s c i (state_after lines s c (i - s)) =
        value_block_loop lines s c (Suc i) (state_after lines s c (Suc i - s))"
    using Suc.prems lt ne by (intro loop_continue) auto
  also have "\<dots> = int (length lines) - 1"
    using Suc.hyps Suc.prems lt by (intro Suc.hyps(1)) auto
  finally show ?case .
qed

lemma value_block_end_cases:
  "(\<exists>r. s \<le> r \<and> r < length lines \<and> ends_on lines s c r \<and>
        (\<forall>j. s \<le> j \<and> j < r \<longrightarrow> \<not> ends_on lines s c j) \<and>
        value_block_end lines s c = int r) \<or>
   ((\<forall>j. s \<le> j \<and> j < length lines \<longrightarrow> \<not> ends_on lines s c j) \<and>
    value_block_end lines s c = int (length lines) - 1)"
proof (cases "\<exists>r. s \<le> r \<and> r < length lines \<and> ends_on lines s c r")
  case True
  define P where "P r \<longleftrightarrow> s \<le> r \<and> r < length lines \<and> ends_on lines s c r" for r
  from True have ex: "\<exists>r. P r" by (simp add: P_def)
  define r where "r = (LEAST r. P r)"
  have Pr: "P r" unfolding r_def using ex by (auto intro: LeastI_ex)
  have least: "\<not> P j" if "j < r" for j using that not_less_Least unfolding r_def by blast
  have "\<forall>j. s \<le> j \<and> j < r \<longrightarrow> \<not> ends_on lines s c j"
    using least Pr by (auto simp: P_def)
  moreover from this Pr have "value_block_end lines s c = int r"
    unfolding value_block_end_def using loop_first[of s s r lines c] by (simp add: P_def)
  ultimately show ?thesis using Pr by (auto simp: P_def)
next
  case False
  show ?thesis
  proof (cases "s \<le> length lines")
    case True
    with False show ?thesis
      unfolding value_block_end_def using loop_none[of s s lines c] by auto
  next
    case False
    then show ?thesis
      unfolding value_block_end_def by (subst value_block_loop.simps) auto
  qed
qed



text \<open>
  Claim C10. The scanner is a total function. On a document with at least one line and a
  start line inside it, the result is the index of a line of the document, not before the
  start line, for every start column; when no line closes the value, it is the index of
  the last line.
\<close>

theorem value_block_end_in_range:
  assumes "lines \<noteq> []" "first_line < length lines"
  shows "int first_line \<le> value_block_end lines first_line col \<and>
         value_block_end lines first_line col < int (length lines) \<and>
         ((\<forall>j. first_line \<le> j \<and> j < length lines \<longrightarrow> \<not> ends_on lines first_line col j) \<longrightarrow>
          value_block_end lines first_line col = int (length lines) - 1)"
  using value_block_end_cases [of first_line lines col] assms by auto

theorem value_block_end_in_range_witness:
  "doc_open \<noteq> [] \<and> 0 < length doc_open \<and>
   \<not> ends_on doc_open 0 3 0 \<and> \<not> ends_on doc_open 0 3 1 \<and>
   value_block_end doc_open 0 3 = int (length doc_open) - 1 \<and>
   int 0 \<le> value_block_end doc_open 0 (- 2) \<and>
   value_block_end doc_open 0 (- 2) < int (length doc_open)"
proof -
  have a: "doc_open \<noteq> []" by code_simp
  have b: "0 < length doc_open" by code_simp
  have c: "\<not> ends_on doc_open 0 3 0" "\<not> ends_on doc_open 0 3 1" by code_simp+
  have d: "length doc_open = 2" by code_simp
  have "\<forall>j. 0 \<le> j \<and> j < length doc_open \<longrightarrow> \<not> ends_on doc_open 0 3 j"
    using c d by (auto simp: less_Suc_eq numeral_2_eq_2)
  with value_block_end_in_range [OF a b, of 3] value_block_end_in_range [OF a b, of "- 2"] a b c
  show ?thesis by simp
qed

section \<open>Properties of section resolution\<close>

text \<open>
  Claim C4. For a table path with at least one segment whose last segment has no index:
  the first table header with that dotted path is taken when there is one; otherwise no
  array-of-tables header with that path gives \<open>KeyError\<close> (path not found), exactly one
  is taken, and two or more give \<open>RuntimeError\<close> (ambiguous path).
\<close>

theorem find_section_block_without_index:
  assumes "target \<noteq> []" "index (last target) = None"
  shows
   "(filter (\<lambda>h. kind h = Table \<and> path h = map name target) headers \<noteq> [] \<longrightarrow>
       find_section_block headers target =
         Inr (section_of (hd (filter (\<lambda>h. kind h = Table \<and> path h = map name target) headers)))) \<and>
    (filter (\<lambda>h. kind h = Table \<and> path h = map name target) headers = [] \<longrightarrow>
       (length (filter (\<lambda>h. kind h = Aot \<and> path h = map name target) headers) = 0 \<longrightarrow>
          find_section_block headers target = Inl KeyError) \<and>
       (length (filter (\<lambda>h. kind h = Aot \<and> path h = map name target) headers) = 1 \<longrightarrow>
          find_section_block headers target =
            Inr (section_of (hd (filter (\<lambda>h. kind h = Aot \<and> path h = map name target) headers)))) \<and>
       (length (filter (\<lambda>h. kind h = Aot \<and> path h = map name target) headers) \<ge> 2 \<longrightarrow>
          find_section_block headers target = Inl RuntimeError))"
  using assms by (auto simp: find_section_block_def Let_def split: list.splits)

theorem find_section_block_without_index_witness:
  "[seg (u ''group'') None] \<noteq> [] \<and> index (last [seg (u ''group'') None]) = None \<and>
   filter (\<lambda>h. kind h = Table \<and> path h = map name [seg (u ''group'') None])
     (index_headers doc_groups) = [] \<and>
   length (filter (\<lambda>h. kind h = Aot \<and> path h = map name [seg (u ''group'') None])
     (index_headers doc_groups)) \<ge> 2 \<and>
   find_section_block (index_headers doc_groups) [seg (u ''group'') None] = Inl RuntimeError"
proof -
  have a: "[seg (u ''group'') None] \<noteq> []" by simp
  have b: "index (last [seg (u ''group'') None]) = None" by code_simp
  have c: "filter (\<lambda>h. kind h = Table \<and> path h = map name [seg (u ''group'') None])
     (index_headers doc_groups) = []" by code_simp
  have d: "length (filter (\<lambda>h. kind h = Aot \<and> path h = map name [seg (u ''group'') None])
     (index_headers doc_groups)) \<ge> 2" by code_simp
  from find_section_block_without_index [OF a b, of "index_headers doc_groups"] a b c d
  show ?thesis by blast
qed

section \<open>Properties of the top-comment replacement\<close>

lemma comment_lines_map: "comment_lines xs acc = acc @ map render_comment_line xs"
  by (induction xs arbitrary: acc) (auto simp: render_comment_line_def)

lemma top_comment_end_takeWhile:
  "i \<le> length lines \<Longrightarrow>
   top_comment_end lines i = i + length (takeWhile is_comment_or_blank (drop i lines))"
proof (induction lines i rule: top_comment_end.induct)
  case (1 lines i)
  show ?case
  proof (cases "i < length lines")
    case True
    then have d: "drop i lines = lines ! i # drop (Suc i) lines"
      by (simp add: Cons_nth_drop_Suc)
    show ?thesis
      using 1 True
      by (subst top_comment_end.simps) (auto simp: d is_comment_or_blank_def[symmetric])
  next
    case False
    then show ?thesis using 1 by (subst top_comment_end.simps) simp
  qed
qed

lemma drop_top_comment_end:
  "drop (top_comment_end lines 0) lines = dropWhile is_comment_or_blank lines"
proof -
  have "drop (length (takeWhile is_comment_or_blank lines)) lines =
        dropWhile is_comment_or_blank lines"
    by (metis append_eq_conv_conj takeWhile_dropWhile_id)
  then show ?thesis using top_comment_end_takeWhile[of 0 lines] by simp
qed

lemma concat_splitlines_from: "concat (splitlines_from True cur rest) = cur @ rest"
  by (induction True cur rest rule: splitlines_from.induct) auto

text \<open>
  Claim C9. The result of the top-comment replacement is: one comment line for each line
  of the replacement text (\<open>#\<close> alone for a blank line, \<open>#\<close> and a space before the line
  otherwise), one empty line, and the lines of the document from its first line that is
  neither blank nor a comment, unchanged. The lines left out are the longest leading run
  of blank or comment lines, and nothing else of the text is lost.
\<close>

theorem replace_top_comment_block_result:
  "replace_top_comment_block text (Some new_text) =
     concat (map render_comment_line (splitlines False new_text)) @ [LF] @
     concat (dropWhile is_comment_or_blank (splitlines True text)) \<and>
   concat (takeWhile is_comment_or_blank (splitlines True text)) @
     concat (dropWhile is_comment_or_blank (splitlines True text)) = text"
proof -
  have "concat (takeWhile is_comment_or_blank (splitlines True text)) @
        concat (dropWhile is_comment_or_blank (splitlines True text)) =
        concat (splitlines True text)"
    by (metis concat_append takeWhile_dropWhile_id)
  then show ?thesis
    by (simp add: replace_top_comment_block_def Let_def comment_lines_map
        drop_top_comment_end splitlines_def concat_splitlines_from)
qed

section \<open>Properties of the header indexer\<close>

lemma collect_headers_append:
  "collect_headers ls i c (acc @ xs) = acc @ collect_headers ls i c xs"
  by (induction ls arbitrary: i c xs) (auto simp: Let_def split: option.splits)

lemma collect_headers_acc:
  "collect_headers ls i c acc = acc @ collect_headers ls i c []"
  using collect_headers_append [of ls i c acc "[]"] by simp

lemma collect_headers_step:
  "collect_headers (l # ls) i c [] =
     (case parse_header_line l of
        None \<Rightarrow> collect_headers ls (Suc i) c []
      | Some (k, p) \<Rightarrow>
          if k = Aot then
            \<lparr>kind = Aot, path = p, aot_index = Some (counter_of c p),
             start_line = int i, end_line = int i\<rparr> #
            collect_headers ls (Suc i) (c(p \<mapsto> counter_of c p + 1)) []
          else
            \<lparr>kind = Table, path = p, aot_index = None, start_line = int i, end_line = int i\<rparr> #
            collect_headers ls (Suc i) c [])"
  by (auto simp: Let_def counter_of_def split: option.splits
      intro: collect_headers_acc [where acc = "[x]" for x, simplified])

lemma parse_header_line_kind: "parse_header_line l = Some (k, p) \<Longrightarrow> k = Table \<or> k = Aot"
  by (auto simp: parse_header_line_def split: option.splits)

lemma collect_headers_range:
  "h \<in> set (collect_headers ls i c []) \<Longrightarrow>
   kind h \<noteq> Root \<and> int i \<le> start_line h \<and> start_line h < int (i + length ls)"
proof (induction ls arbitrary: i c)
  case Nil
  then show ?case by simp
next
  case (Cons l ls)
  from Cons.prems show ?case
    unfolding collect_headers_step
    by (auto split: option.splits if_splits dest!: Cons.IH)
qed

lemma collect_headers_sorted:
  "sorted_wrt (<) (map start_line (collect_headers ls i c []))"
proof (induction ls arbitrary: i c)
  case Nil
  then show ?case by simp
next
  case (Cons l ls)
  show ?case
    unfolding collect_headers_step
    using Cons.IH by (auto split: option.splits dest!: collect_headers_range)
qed

lemma collect_headers_aot_index:
  "map aot_index (filter (\<lambda>h. kind h = Aot \<and> path h = p) (collect_headers ls i c [])) =
   map Some [counter_of c p ..<
             counter_of c p + length (filter (\<lambda>h. kind h = Aot \<and> path h = p) (collect_headers ls i c []))]"
proof (induction ls arbitrary: i c)
  case Nil
  then show ?case by simp
next
  case (Cons l ls)
  show ?case
  proof (cases "parse_header_line l")
    case None
    then show ?thesis unfolding collect_headers_step using Cons.IH by simp
  next
    case (Some kp)
    obtain k q where kp: "kp = (k, q)" by (cases kp)
    show ?thesis
    proof (cases "k = Aot")
      case False
      with Some kp parse_header_line_kind[of l k q] have "k = Table" by simp
      with Some kp show ?thesis unfolding collect_headers_step using Cons.IH by simp
    next
      case True
      show ?thesis
      proof (cases "q = p")
        case True
        define c1 where "c1 = c(p \<mapsto> counter_of c p + 1)"
        define rest where "rest = collect_headers ls (Suc i) c1 []"
        define m where "m = length (filter (\<lambda>h. kind h = Aot \<and> path h = p) rest)"
        have c': "counter_of c1 p = Suc (counter_of c p)"
          by (simp add: counter_of_def c1_def)
        have ih: "map aot_index (filter (\<lambda>h. kind h = Aot \<and> path h = p) rest) =
                  map Some [Suc (counter_of c p) ..< Suc (counter_of c p) + m]"
          using Cons.IH [of "Suc i" c1] unfolding rest_def m_def c' .
        have step: "collect_headers (l # ls) i c [] =
            \<lparr>kind = Aot, path = p, aot_index = Some (counter_of c p),
             start_line = int i, end_line = int i\<rparr> # rest"
          unfolding collect_headers_step rest_def c1_def
          using Some kp \<open>k = Aot\<close> True by simp
        have u: "[counter_of c p ..< counter_of c p + Suc m] =
                 counter_of c p # [Suc (counter_of c p) ..< Suc (counter_of c p) + m]"
          by (simp add: upt_conv_Cons)
        show ?thesis
          unfolding step using ih u by (simp add: m_def del: upt_Suc)
      next
        case False
        define c1 where "c1 = c(q \<mapsto> counter_of c q + 1)"
        have c': "counter_of c1 p = counter_of c p"
          using False by (simp add: counter_of_def c1_def)
        have step: "collect_headers (l # ls) i c [] =
            \<lparr>kind = Aot, path = q, aot_index = Some (counter_of c q),
             start_line = int i, end_line = int i\<rparr> # collect_headers ls (Suc i) c1 []"
          unfolding collect_headers_step c1_def
          using Some kp \<open>k = Aot\<close> by simp
        show ?thesis
          unfolding step using Cons.IH [of "Suc i" c1] False by (simp add: c')
      qed
    qed
  qed
qed

lemma first_pass_eq: "first_pass lines = root_header # collect_headers lines 0 Map.empty []"
  unfolding first_pass_def using collect_headers_acc [of lines 0 Map.empty "[root_header]"] by simp

lemma index_headers_eq:
  "index_headers lines = map (set_end_line lines (first_pass lines)) [0..<length (first_pass lines)]"
  by (simp add: index_headers_def first_pass_def Let_def)

lemma length_index_headers: "length (index_headers lines) = length (first_pass lines)"
  by (simp add: index_headers_eq)

lemma nth_index_headers:
  "k < length (first_pass lines) \<Longrightarrow>
   index_headers lines ! k = set_end_line lines (first_pass lines) k"
  by (simp add: index_headers_eq)

lemma set_end_line_fields:
  "kind (set_end_line lines hs k) = kind (hs ! k)"
  "path (set_end_line lines hs k) = path (hs ! k)"
  "aot_index (set_end_line lines hs k) = aot_index (hs ! k)"
  "start_line (set_end_line lines hs k) = start_line (hs ! k)"
  by (simp_all add: set_end_line_def Let_def)

lemma index_headers_project:
  assumes "\<And>k. f (set_end_line lines (first_pass lines) k) = f (first_pass lines ! k)"
  shows "map f (index_headers lines) = map f (first_pass lines)"
  by (rule nth_equalityI) (simp_all add: length_index_headers nth_index_headers assms)

lemma index_headers_filter_project:
  assumes "\<And>k. P (set_end_line lines (first_pass lines) k) = P (first_pass lines ! k)"
    and "\<And>k. f (set_end_line lines (first_pass lines) k) = f (first_pass lines ! k)"
  shows "map f (filter P (index_headers lines)) = map f (filter P (first_pass lines))"
proof -
  have "map (\<lambda>h. (P h, f h)) (index_headers lines) = map (\<lambda>h. (P h, f h)) (first_pass lines)"
    by (rule index_headers_project) (simp add: assms)
  moreover have "map f (filter P xs) = map snd (filter fst (map (\<lambda>h. (P h, f h)) xs))" for xs :: "Header list"
    by (induction xs) auto
  ultimately show ?thesis by simp
qed

lemma trim_back_spec:
  "start \<le> j0 \<Longrightarrow>
   start \<le> trim_back lines start j0 \<and> trim_back lines start j0 \<le> j0 \<and>
   (\<forall>j. trim_back lines start j0 < j \<and> j \<le> j0 \<longrightarrow> is_comment_or_blank (lines ! nat j)) \<and>
   (trim_back lines start j0 = start \<or> \<not> is_comment_or_blank (lines ! nat (trim_back lines start j0)))"
proof (induction lines start j0 rule: trim_back.induct)
  case (1 lines start j)
  show ?case
  proof (cases "j > start \<and> is_comment_or_blank (lines ! nat j)")
    case True
    then have eq: "trim_back lines start j = trim_back lines start (j - 1)"
      by (subst trim_back.simps) simp
    from True have "start \<le> j - 1" by simp
    from 1(1) [OF True this] have ih:
      "start \<le> trim_back lines start (j - 1)" "trim_back lines start (j - 1) \<le> j - 1"
      "\<forall>i. trim_back lines start (j - 1) < i \<and> i \<le> j - 1 \<longrightarrow> is_comment_or_blank (lines ! nat i)"
      "trim_back lines start (j - 1) = start \<or> \<not> is_comment_or_blank (lines ! nat (trim_back lines start (j - 1)))"
      by auto
    have "is_comment_or_blank (lines ! nat i)" if "trim_back lines start (j - 1) < i" "i \<le> j" for i
    proof (cases "i = j")
      case True
      with \<open>j > start \<and> is_comment_or_blank (lines ! nat j)\<close> show ?thesis by simp
    next
      case False
      with that ih(3) show ?thesis by simp
    qed
    with ih show ?thesis unfolding eq by auto
  next
    case False
    then have eq: "trim_back lines start j = j" by (subst trim_back.simps) auto
    from False 1(2) show ?thesis unfolding eq by auto
  qed
qed

text \<open>
  Claim C7. In the header list of every document the start lines increase strictly; the
  array-of-tables headers of any one path carry the indices 0, 1, 2, ... in document
  order; exactly one header is the root, it is the first, it starts at line \<open>-1\<close>, and its
  content ends just before the first real header, or at the last line of the document
  when there is none.
\<close>

theorem index_headers_invariant:
  "sorted_wrt (<) (map start_line (index_headers lines)) \<and>
   (\<forall>p. map aot_index (filter (\<lambda>h. kind h = Aot \<and> path h = p) (index_headers lines)) =
        map Some [0..<length (filter (\<lambda>h. kind h = Aot \<and> path h = p) (index_headers lines))]) \<and>
   length (filter (\<lambda>h. kind h = Root) (index_headers lines)) = 1 \<and>
   index_headers lines \<noteq> [] \<and>
   kind (hd (index_headers lines)) = Root \<and>
   start_line (hd (index_headers lines)) = - 1 \<and>
   end_line (hd (index_headers lines)) =
     (if tl (index_headers lines) = [] then int (length lines) - 1
      else start_line (hd (tl (index_headers lines))) - 1)"
proof -
  let ?new = "collect_headers lines 0 Map.empty []"
  have starts: "map start_line (index_headers lines) = map start_line (first_pass lines)"
    by (rule index_headers_project) (simp add: set_end_line_fields)
  have nonroot: "\<forall>h \<in> set ?new. kind h \<noteq> Root \<and> 0 \<le> start_line h"
    using collect_headers_range [of _ lines 0 Map.empty] by auto
  have s: "sorted_wrt (<) (map start_line (index_headers lines))"
    unfolding starts first_pass_eq
    using collect_headers_sorted [of lines 0 Map.empty] nonroot
    by (auto simp: root_header_def)
  have a: "map aot_index (filter (\<lambda>h. kind h = Aot \<and> path h = p) (index_headers lines)) =
        map Some [0..<length (filter (\<lambda>h. kind h = Aot \<and> path h = p) (index_headers lines))]" for p
  proof -
    have e: "map aot_index (filter (\<lambda>h. kind h = Aot \<and> path h = p) (index_headers lines)) =
          map aot_index (filter (\<lambda>h. kind h = Aot \<and> path h = p) (first_pass lines))"
      by (rule index_headers_filter_project) (simp_all add: set_end_line_fields)
    from arg_cong [OF this, of length]
    have "length (filter (\<lambda>h. kind h = Aot \<and> path h = p) (index_headers lines)) =
          length (filter (\<lambda>h. kind h = Aot \<and> path h = p) (first_pass lines))"
      by simp
    with e show ?thesis
      unfolding first_pass_eq
      using collect_headers_aot_index [of p lines 0 Map.empty]
      by (simp add: root_header_def counter_of_def)
  qed
  have r: "length (filter (\<lambda>h. kind h = Root) (index_headers lines)) = 1"
  proof -
    have "map kind (filter (\<lambda>h. kind h = Root) (index_headers lines)) =
          map kind (filter (\<lambda>h. kind h = Root) (first_pass lines))"
      by (rule index_headers_filter_project) (simp_all add: set_end_line_fields)
    from arg_cong [OF this, of length]
    have "length (filter (\<lambda>h. kind h = Root) (index_headers lines)) =
          length (filter (\<lambda>h. kind h = Root) (first_pass lines))"
      by simp
    moreover have "filter (\<lambda>h. kind h = Root) ?new = []"
      using nonroot by (simp add: filter_empty_conv)
    ultimately show ?thesis by (simp add: first_pass_eq root_header_def)
  qed
  have len: "length (index_headers lines) = Suc (length ?new)"
    by (simp add: length_index_headers first_pass_eq)
  then have ne: "index_headers lines \<noteq> []" by auto
  have h0: "hd (index_headers lines) = set_end_line lines (first_pass lines) 0"
    using nth_index_headers [of 0 lines] ne by (simp add: hd_conv_nth first_pass_eq)
  have fp0: "first_pass lines ! 0 = root_header" by (simp add: first_pass_eq)
  have k: "kind (hd (index_headers lines)) = Root" "start_line (hd (index_headers lines)) = - 1"
    by (simp_all add: h0 set_end_line_fields fp0 root_header_def)
  have e: "end_line (hd (index_headers lines)) =
     (if tl (index_headers lines) = [] then int (length lines) - 1
      else start_line (hd (tl (index_headers lines))) - 1)"
  proof (cases "?new = []")
    case True
    then have "tl (index_headers lines) = []" using len by (cases "index_headers lines") auto
    moreover have "end_line (hd (index_headers lines)) = int (length lines) - 1"
      using True by (simp add: h0 set_end_line_def Let_def fp0 root_header_def next_start_def first_pass_eq)
    ultimately show ?thesis by simp
  next
    case False
    then have l2: "1 < length (index_headers lines)" using len by (cases ?new) auto
    then have tne: "tl (index_headers lines) \<noteq> []" by (cases "index_headers lines") auto
    have "hd (tl (index_headers lines)) = index_headers lines ! 1"
      using l2 tne by (simp add: hd_conv_nth nth_tl)
    then have "start_line (hd (tl (index_headers lines))) = start_line (first_pass lines ! 1)"
      using l2 by (simp add: nth_index_headers length_index_headers set_end_line_fields)
    moreover have "end_line (hd (index_headers lines)) = start_line (first_pass lines ! 1) - 1"
      using l2 by (simp add: h0 set_end_line_def Let_def fp0 root_header_def next_start_def length_index_headers)
    ultimately show ?thesis using tne by simp
  qed
  from s a r ne k e show ?thesis by blast
qed

lemma first_pass_sorted: "sorted_wrt (<) (map start_line (first_pass lines))"
proof -
  have "\<forall>h \<in> set (collect_headers lines 0 Map.empty []). 0 \<le> start_line h"
    using collect_headers_range [of _ lines 0 Map.empty] by auto
  then show ?thesis
    unfolding first_pass_eq
    using collect_headers_sorted [of lines 0 Map.empty] by (auto simp: root_header_def)
qed

lemma first_pass_nonroot:
  assumes "k < length (first_pass lines)" "kind (first_pass lines ! k) \<noteq> Root"
  shows "0 \<le> start_line (first_pass lines ! k) \<and> start_line (first_pass lines ! k) < int (length lines)"
proof -
  have "k \<noteq> 0"
  proof
    assume "k = 0"
    with assms(2) show False by (simp add: first_pass_eq root_header_def)
  qed
  then obtain k' where k: "k = Suc k'" by (cases k) auto
  with assms(1) have "first_pass lines ! k \<in> set (collect_headers lines 0 Map.empty [])"
    by (simp add: first_pass_eq)
  from collect_headers_range [OF this] show ?thesis by simp
qed

lemma next_start_index_headers:
  "next_start lines (index_headers lines) k = next_start lines (first_pass lines) k"
  by (simp add: next_start_def length_index_headers nth_index_headers set_end_line_fields)

lemma start_below_next_start:
  assumes "k < length (first_pass lines)" "kind (first_pass lines ! k) \<noteq> Root"
  shows "start_line (first_pass lines ! k) \<le> next_start lines (first_pass lines) k - 1"
proof (cases "k + 1 < length (first_pass lines)")
  case True
  have "map start_line (first_pass lines) ! k < map start_line (first_pass lines) ! (k + 1)"
    using first_pass_sorted [of lines] True by (intro sorted_wrt_nth_less) auto
  with True show ?thesis by (simp add: next_start_def)
next
  case False
  with first_pass_nonroot [OF assms] show ?thesis by (simp add: next_start_def)
qed

text \<open>
  Claim C6, amended. The content end of the root header is the line before the next
  header (or the last line), as it is. The content end of every other header lies between
  its header line and the line before the next header (or the last line); every line
  after it up to there is blank or a comment; and it is the header line itself or a line
  that is neither blank nor a comment.
\<close>

theorem index_headers_end_line:
  assumes "k < length (index_headers lines)"
  shows
   "(kind (index_headers lines ! k) = Root \<longrightarrow>
       end_line (index_headers lines ! k) = next_start lines (index_headers lines) k - 1) \<and>
    (kind (index_headers lines ! k) \<noteq> Root \<longrightarrow>
       start_line (index_headers lines ! k) \<le> end_line (index_headers lines ! k) \<and>
       end_line (index_headers lines ! k) \<le> next_start lines (index_headers lines) k - 1 \<and>
       (\<forall>j. end_line (index_headers lines ! k) < j \<and>
            j \<le> next_start lines (index_headers lines) k - 1 \<longrightarrow>
            is_comment_or_blank (lines ! nat j)) \<and>
       (end_line (index_headers lines ! k) = start_line (index_headers lines ! k) \<or>
        \<not> is_comment_or_blank (lines ! nat (end_line (index_headers lines ! k)))))"
proof -
  from assms have k: "k < length (first_pass lines)" by (simp add: length_index_headers)
  have nth: "index_headers lines ! k = set_end_line lines (first_pass lines) k"
    using k by (rule nth_index_headers)
  show ?thesis
  proof (cases "kind (first_pass lines ! k) = Root")
    case True
    then show ?thesis
      by (simp add: nth next_start_index_headers set_end_line_def Let_def)
  next
    case False
    have e: "end_line (index_headers lines ! k) =
             trim_back lines (start_line (first_pass lines ! k))
               (next_start lines (first_pass lines) k - 1)"
      using False by (simp add: nth set_end_line_def Let_def)
    have s: "start_line (index_headers lines ! k) = start_line (first_pass lines ! k)"
      by (simp add: nth set_end_line_fields)
    have kd: "kind (index_headers lines ! k) \<noteq> Root"
      using False by (simp add: nth set_end_line_fields)
    from trim_back_spec [OF start_below_next_start [OF k False]] kd
    show ?thesis
      unfolding e s next_start_index_headers by blast
  qed
qed

theorem index_headers_end_line_witness:
  "1 < length (index_headers doc_trim) \<and> kind (index_headers doc_trim ! 1) \<noteq> Root \<and>
   end_line (index_headers doc_trim ! 1) \<noteq> start_line (index_headers doc_trim ! 1) \<and>
   start_line (index_headers doc_trim ! 1) \<le> end_line (index_headers doc_trim ! 1) \<and>
   \<not> is_comment_or_blank (doc_trim ! nat (end_line (index_headers doc_trim ! 1))) \<and>
   0 < length (index_headers doc_trim) \<and> kind (index_headers doc_trim ! 0) = Root \<and>
   end_line (index_headers doc_trim ! 0) = next_start doc_trim (index_headers doc_trim) 0 - 1"
proof -
  have a: "1 < length (index_headers doc_trim)" by code_simp
  have b: "kind (index_headers doc_trim ! 1) \<noteq> Root" by code_simp
  have c: "end_line (index_headers doc_trim ! 1) \<noteq> start_line (index_headers doc_trim ! 1)"
    by code_simp
  have d: "0 < length (index_headers doc_trim)" by code_simp
  have e: "kind (index_headers doc_trim ! 0) = Root" by code_simp
  from index_headers_end_line [OF a] index_headers_end_line [OF d] a b c d e show ?thesis by blast
qed

text \<open>
  Claim C6 as stated fails for the root header: its content end is not walked backward,
  so it can be a comment line.
\<close>

theorem index_headers_root_end_counterexample:
  "kind (index_headers doc_root_comment ! 0) = Root \<and>
   end_line (index_headers doc_root_comment ! 0) = 1 \<and>
   is_comment_or_blank (doc_root_comment ! 1) \<and>
   trim_back doc_root_comment (start_line (index_headers doc_root_comment ! 0))
     (next_start doc_root_comment (index_headers doc_root_comment) 0 - 1) = 0"
  by code_simp

section \<open>Properties of the assignment locator and of set\<close>















section \<open>Properties of the driver\<close>

lemma for_each_append:
  "for_each body st (xs @ ys) =
     (case for_each body st xs of Inl e \<Rightarrow> Inl e | Inr st' \<Rightarrow> for_each body st' ys)"
  by (induction xs arbitrary: st) (auto split: sum.splits)

lemma for_each_map: "for_each body st (map g xs) = for_each (\<lambda>s x. body s (g x)) st xs"
  by (induction xs arbitrary: st) (auto split: sum.splits)

lemma for_each_ops:
  "for_each (apply_op digit_value loads) lines (requested_ops args) =
     (case for_each (set_step digit_value loads) lines (sets args) of
        Inl e \<Rightarrow> Inl e
      | Inr lines1 \<Rightarrow>
          (case for_each (delete_key_step digit_value) lines1 (del_keys args) of
             Inl e \<Rightarrow> Inl e
           | Inr lines2 \<Rightarrow> for_each (delete_section_step digit_value) lines2 (del_secs args)))"
  by (simp add: requested_ops_def for_each_append for_each_map apply_op_def split: sum.splits)

lemma main_eq:
  assumes "input = Some text0" "validate_toml_document loads text0 = Inr ()"
  shows "main digit_value loads input writable args =
     (case for_each (apply_op digit_value loads) (initial_lines text0 args) (requested_ops args) of
        Inl e \<Rightarrow> (e, None)
      | Inr lines' \<Rightarrow> if writable then (Returned 0, Some (concat lines')) else (Returned 5, None))"
  using assms
  by (simp add: main_def for_each_ops initial_lines_def Let_def split: sum.splits)

lemma for_each_stops:
  assumes "k < length xs" "for_each body st (take k xs) = Inr st'" "body st' (xs ! k) = Inl e"
  shows "for_each body st xs = Inl e"
proof -
  have "xs = take k xs @ xs ! k # drop (Suc k) xs"
    using assms(1) by (simp add: id_take_nth_drop)
  then have "for_each body st xs = for_each body st (take k xs @ xs ! k # drop (Suc k) xs)"
    by simp
  also have "\<dots> = Inl e"
    using assms(2,3) by (simp add: for_each_append)
  finally show ?thesis .
qed

lemma apply_op_stop: "apply_op digit_value loads lines op = Inl e \<Longrightarrow> e \<noteq> Returned 0"
  by (auto simp: apply_op_def set_step_def delete_key_step_def delete_section_step_def
      split: operation.splits sum.splits prod.splits if_splits)

lemma apply_op_payload_ValueError:
  "payload_error loads op = Some ValueError \<Longrightarrow>
   apply_op digit_value loads lines op = Inl (Returned 4)"
  by (auto simp: payload_error_def apply_op_def set_step_def
      split: operation.splits sum.splits prod.splits)

lemma apply_op_payload_error:
  "payload_error loads op = Some e \<Longrightarrow>
   apply_op digit_value loads lines op = Inl (Returned 4) \<or>
   apply_op digit_value loads lines op = Inl (Aborted (Uncaught e))"
  by (auto simp: payload_error_def apply_op_def set_step_def
      split: operation.splits sum.splits prod.splits)

lemma apply_op_resolution_error:
  "payload_error loads op = None \<Longrightarrow> resolution_error digit_value lines op = Some e \<Longrightarrow>
   apply_op digit_value loads lines op = Inl (Aborted (resolution_abort e))"
  by (auto simp: payload_error_def resolution_error_def apply_op_def set_step_def
      delete_key_step_def delete_section_step_def apply_set_def apply_delete_key_def
      apply_delete_section_def
      split: operation.splits sum.splits prod.splits)

lemma apply_op_success:
  "apply_op digit_value loads lines op = Inr lines' \<Longrightarrow>
   payload_error loads op = None \<and> resolution_error digit_value lines op = None"
  by (auto simp: payload_error_def resolution_error_def apply_op_def set_step_def
      delete_key_step_def delete_section_step_def apply_set_def apply_delete_key_def
      apply_delete_section_def
      split: operation.splits sum.splits prod.splits if_splits)

lemma for_each_prefix:
  assumes "for_each body st xs = Inr st'" "k < length xs"
  shows "\<exists>st_k st_k'. for_each body st (take k xs) = Inr st_k \<and> body st_k (xs ! k) = Inr st_k'"
proof -
  have "xs = take k xs @ xs ! k # drop (Suc k) xs"
    using assms(2) by (simp add: id_take_nth_drop)
  then have "for_each body st (take k xs @ xs ! k # drop (Suc k) xs) = Inr st'"
    using assms(1) by simp
  then show ?thesis
    by (auto simp: for_each_append split: sum.splits)
qed

lemma main_stops_at_failed_step:
  assumes "input = Some text0" "validate_toml_document loads text0 = Inr ()"
    and "k < length (requested_ops args)"
    and "for_each (apply_op digit_value loads) (initial_lines text0 args)
           (take k (requested_ops args)) = Inr lines_k"
    and "apply_op digit_value loads lines_k (requested_ops args ! k) = Inl e"
  shows "main digit_value loads input writable args = (e, None)"
proof -
  have "for_each (apply_op digit_value loads) (initial_lines text0 args) (requested_ops args) = Inl e"
    using assms(3,4,5) by (rule for_each_stops)
  then show ?thesis by (simp add: main_eq [OF assms(1,2)])
qed

text \<open>
  Claim C8. On an input that is read and validated, when the operations before the
  \<open>k\<close>-th have succeeded and left the document \<open>lines_k\<close>: if the payload of the \<open>k\<close>-th
  is malformed the run returns exit code 4; if its payload parses and its path is not
  found in \<open>lines_k\<close> the run exits with code 2; if the path is ambiguous it exits with
  code 3; and on any payload or resolution failure the run writes no output and does not
  end with exit code 0, whatever \<open>lines_k\<close> holds and whatever operations follow. When a
  run writes the output, the exit code is 0, the text written is the document after the
  last operation, and no requested operation had a payload or resolution failure on the
  document it was applied to.
\<close>

theorem main_fail_fast:
  assumes "input = Some text0" "validate_toml_document loads text0 = Inr ()"
  shows
   "(\<forall>k lines_k.
       k < length (requested_ops args) \<and>
       for_each (apply_op digit_value loads) (initial_lines text0 args)
         (take k (requested_ops args)) = Inr lines_k \<longrightarrow>
       (payload_error loads (requested_ops args ! k) = Some ValueError \<longrightarrow>
          main digit_value loads input writable args = (Returned 4, None)) \<and>
       (payload_error loads (requested_ops args ! k) = None \<and>
        resolution_error digit_value lines_k (requested_ops args ! k) = Some KeyError \<longrightarrow>
          main digit_value loads input writable args = (Aborted (SysExit 2), None)) \<and>
       (payload_error loads (requested_ops args ! k) = None \<and>
        resolution_error digit_value lines_k (requested_ops args ! k) = Some RuntimeError \<longrightarrow>
          main digit_value loads input writable args = (Aborted (SysExit 3), None)) \<and>
       (payload_error loads (requested_ops args ! k) \<noteq> None \<or>
        resolution_error digit_value lines_k (requested_ops args ! k) \<noteq> None \<longrightarrow>
          snd (main digit_value loads input writable args) = None \<and>
          fst (main digit_value loads input writable args) \<noteq> Returned 0)) \<and>
    (\<forall>out. snd (main digit_value loads input writable args) = Some out \<longrightarrow>
       fst (main digit_value loads input writable args) = Returned 0 \<and>
       (\<exists>lines'. for_each (apply_op digit_value loads) (initial_lines text0 args)
                    (requested_ops args) = Inr lines' \<and> out = concat lines') \<and>
       (\<forall>k. k < length (requested_ops args) \<longrightarrow>
          (\<exists>lines_k. for_each (apply_op digit_value loads) (initial_lines text0 args)
                        (take k (requested_ops args)) = Inr lines_k \<and>
                      payload_error loads (requested_ops args ! k) = None \<and>
                      resolution_error digit_value lines_k (requested_ops args ! k) = None)))"
proof (intro conjI allI impI)
  fix k lines_k
  assume h: "k < length (requested_ops args) \<and>
       for_each (apply_op digit_value loads) (initial_lines text0 args)
         (take k (requested_ops args)) = Inr lines_k"
  note stop = main_stops_at_failed_step [OF assms conjunct1 [OF h] conjunct2 [OF h]]
  {
    assume "payload_error loads (requested_ops args ! k) = Some ValueError"
    from stop [OF apply_op_payload_ValueError [OF this]]
    show "main digit_value loads input writable args = (Returned 4, None)" .
  }
  {
    assume "payload_error loads (requested_ops args ! k) = None \<and>
        resolution_error digit_value lines_k (requested_ops args ! k) = Some KeyError"
    then have "apply_op digit_value loads lines_k (requested_ops args ! k) =
               Inl (Aborted (resolution_abort KeyError))"
      by (intro apply_op_resolution_error) auto
    from stop [OF this]
    show "main digit_value loads input writable args = (Aborted (SysExit 2), None)"
      by (simp add: resolution_abort_def)
  }
  {
    assume "payload_error loads (requested_ops args ! k) = None \<and>
        resolution_error digit_value lines_k (requested_ops args ! k) = Some RuntimeError"
    then have "apply_op digit_value loads lines_k (requested_ops args ! k) =
               Inl (Aborted (resolution_abort RuntimeError))"
      by (intro apply_op_resolution_error) auto
    from stop [OF this]
    show "main digit_value loads input writable args = (Aborted (SysExit 3), None)"
      by (simp add: resolution_abort_def)
  }
  {
    assume f: "payload_error loads (requested_ops args ! k) \<noteq> None \<or>
        resolution_error digit_value lines_k (requested_ops args ! k) \<noteq> None"
    have "\<exists>e. apply_op digit_value loads lines_k (requested_ops args ! k) = Inl e"
    proof (cases "payload_error loads (requested_ops args ! k)")
      case (Some e)
      from apply_op_payload_error [OF this, of digit_value lines_k] show ?thesis by auto
    next
      case None
      with f obtain e where "resolution_error digit_value lines_k (requested_ops args ! k) = Some e"
        by auto
      from apply_op_resolution_error [OF None this] show ?thesis by auto
    qed
    then obtain e where e: "apply_op digit_value loads lines_k (requested_ops args ! k) = Inl e"
      by blast
    from stop [OF e] apply_op_stop [OF e]
    show "snd (main digit_value loads input writable args) = None"
      and "fst (main digit_value loads input writable args) \<noteq> Returned 0"
      by simp_all
  }
next
  fix out
  assume "snd (main digit_value loads input writable args) = Some out"
  then show "fst (main digit_value loads input writable args) = Returned 0"
    by (auto simp: main_eq [OF assms] split: sum.splits if_splits)
next
  fix out
  assume "snd (main digit_value loads input writable args) = Some out"
  then show "\<exists>lines'. for_each (apply_op digit_value loads) (initial_lines text0 args)
                    (requested_ops args) = Inr lines' \<and> out = concat lines'"
    by (auto simp: main_eq [OF assms] split: sum.splits if_splits)
next
  fix out k
  assume w: "snd (main digit_value loads input writable args) = Some out"
    and k: "k < length (requested_ops args)"
  from w obtain lines' where
    "for_each (apply_op digit_value loads) (initial_lines text0 args) (requested_ops args) =
     Inr lines'"
    by (auto simp: main_eq [OF assms] split: sum.splits if_splits)
  from for_each_prefix [OF this k] obtain lines_k lines_k' where
    p: "for_each (apply_op digit_value loads) (initial_lines text0 args)
          (take k (requested_ops args)) = Inr lines_k"
    and s: "apply_op digit_value loads lines_k (requested_ops args ! k) = Inr lines_k'"
    by blast
  from p apply_op_success [OF s]
  show "\<exists>lines_k. for_each (apply_op digit_value loads) (initial_lines text0 args)
                        (take k (requested_ops args)) = Inr lines_k \<and>
                      payload_error loads (requested_ops args ! k) = None \<and>
                      resolution_error digit_value lines_k (requested_ops args ! k) = None"
    by blast
qed

theorem main_fail_fast_witness:
  "validate_toml_document toy_loads doc_logger = Inr () \<and>
   validate_toml_document toy_loads doc_groups_text = Inr () \<and>
   1 < length (requested_ops args_second_fails) \<and>
   for_each (apply_op ascii_digit toy_loads) (initial_lines doc_logger args_second_fails)
     (take 1 (requested_ops args_second_fails)) = Inr doc_logger_after_first \<and>
   payload_error toy_loads (requested_ops args_second_fails ! 1) = None \<and>
   resolution_error ascii_digit doc_logger_after_first (requested_ops args_second_fails ! 1) =
     Some KeyError \<and>
   main ascii_digit toy_loads (Some doc_logger) True args_second_fails =
     (Aborted (SysExit 2), None) \<and>
   1 < length (requested_ops args_malformed) \<and>
   for_each (apply_op ascii_digit toy_loads) (initial_lines doc_logger args_malformed)
     (take 1 (requested_ops args_malformed)) = Inr doc_logger_after_first \<and>
   payload_error toy_loads (requested_ops args_malformed ! 1) = Some ValueError \<and>
   main ascii_digit toy_loads (Some doc_logger) True args_malformed = (Returned 4, None) \<and>
   snd (main ascii_digit toy_loads (Some doc_logger) True args_malformed) = None \<and>
   0 < length (requested_ops args_ambiguous) \<and>
   for_each (apply_op ascii_digit toy_loads) (initial_lines doc_groups_text args_ambiguous)
     (take 0 (requested_ops args_ambiguous)) = Inr doc_groups \<and>
   payload_error toy_loads (requested_ops args_ambiguous ! 0) = None \<and>
   resolution_error ascii_digit doc_groups (requested_ops args_ambiguous ! 0) =
     Some RuntimeError \<and>
   main ascii_digit toy_loads (Some doc_groups_text) True args_ambiguous =
     (Aborted (SysExit 3), None) \<and>
   0 < length (requested_ops args_no_section) \<and>
   resolution_error ascii_digit doc_groups (requested_ops args_no_section ! 0) = Some KeyError \<and>
   main ascii_digit toy_loads (Some doc_groups_text) True args_no_section =
     (Aborted (SysExit 2), None) \<and>
   snd (main ascii_digit toy_loads (Some doc_logger) True args_all_succeed) =
     Some doc_logger_done \<and>
   fst (main ascii_digit toy_loads (Some doc_logger) True args_all_succeed) = Returned 0 \<and>
   (\<exists>lines_1. for_each (apply_op ascii_digit toy_loads) (initial_lines doc_logger args_all_succeed)
                 (take 1 (requested_ops args_all_succeed)) = Inr lines_1 \<and>
               resolution_error ascii_digit lines_1 (requested_ops args_all_succeed ! 1) = None)"
proof -
  have a: "Some doc_logger = Some doc_logger" "Some doc_groups_text = Some doc_groups_text"
    by simp_all
  have b: "validate_toml_document toy_loads doc_logger = Inr ()" by code_simp
  have b': "validate_toml_document toy_loads doc_groups_text = Inr ()" by code_simp
  have c1: "1 < length (requested_ops args_second_fails)" by code_simp
  have c2: "for_each (apply_op ascii_digit toy_loads) (initial_lines doc_logger args_second_fails)
     (take 1 (requested_ops args_second_fails)) = Inr doc_logger_after_first" by code_simp
  have c3: "payload_error toy_loads (requested_ops args_second_fails ! 1) = None" by code_simp
  have c4: "resolution_error ascii_digit doc_logger_after_first
              (requested_ops args_second_fails ! 1) = Some KeyError" by code_simp
  have d1: "1 < length (requested_ops args_malformed)" by code_simp
  have d2: "for_each (apply_op ascii_digit toy_loads) (initial_lines doc_logger args_malformed)
     (take 1 (requested_ops args_malformed)) = Inr doc_logger_after_first" by code_simp
  have d3: "payload_error toy_loads (requested_ops args_malformed ! 1) = Some ValueError"
    by code_simp
  have e1: "0 < length (requested_ops args_ambiguous)" by code_simp
  have e2: "for_each (apply_op ascii_digit toy_loads) (initial_lines doc_groups_text args_ambiguous)
     (take 0 (requested_ops args_ambiguous)) = Inr doc_groups" by code_simp
  have e3: "payload_error toy_loads (requested_ops args_ambiguous ! 0) = None" by code_simp
  have e4: "resolution_error ascii_digit doc_groups (requested_ops args_ambiguous ! 0) =
              Some RuntimeError" by code_simp
  have f1: "0 < length (requested_ops args_no_section)" by code_simp
  have f2: "for_each (apply_op ascii_digit toy_loads) (initial_lines doc_groups_text args_no_section)
     (take 0 (requested_ops args_no_section)) = Inr doc_groups" by code_simp
  have f3: "payload_error toy_loads (requested_ops args_no_section ! 0) = None" by code_simp
  have f4: "resolution_error ascii_digit doc_groups (requested_ops args_no_section ! 0) =
              Some KeyError" by code_simp
  have g1: "snd (main ascii_digit toy_loads (Some doc_logger) True args_all_succeed) =
              Some doc_logger_done" by code_simp
  have g2: "1 < length (requested_ops args_all_succeed)" by code_simp
  from main_fail_fast [OF a(1) b, of args_second_fails ascii_digit True] c1 c2 c3 c4
  have r1: "main ascii_digit toy_loads (Some doc_logger) True args_second_fails =
              (Aborted (SysExit 2), None)" by blast
  from main_fail_fast [OF a(1) b, of args_malformed ascii_digit True] d1 d2 d3
  have r2: "main ascii_digit toy_loads (Some doc_logger) True args_malformed = (Returned 4, None)"
    by blast
  have d3': "payload_error toy_loads (requested_ops args_malformed ! 1) \<noteq> None"
    using d3 by simp
  from main_fail_fast [OF a(1) b, of args_malformed ascii_digit True] d1 d2 d3'
  have r2': "snd (main ascii_digit toy_loads (Some doc_logger) True args_malformed) = None"
    by blast
  from main_fail_fast [OF a(2) b', of args_ambiguous ascii_digit True] e1 e2 e3 e4
  have r3: "main ascii_digit toy_loads (Some doc_groups_text) True args_ambiguous =
              (Aborted (SysExit 3), None)" by blast
  from main_fail_fast [OF a(2) b', of args_no_section ascii_digit True] f1 f2 f3 f4
  have r4: "main ascii_digit toy_loads (Some doc_groups_text) True args_no_section =
              (Aborted (SysExit 2), None)" by blast
  from main_fail_fast [OF a(1) b, of args_all_succeed ascii_digit True] g1 g2
  have r5: "fst (main ascii_digit toy_loads (Some doc_logger) True args_all_succeed) = Returned 0"
    and r6: "\<exists>lines_1. for_each (apply_op ascii_digit toy_loads)
                 (initial_lines doc_logger args_all_succeed)
                 (take 1 (requested_ops args_all_succeed)) = Inr lines_1 \<and>
               resolution_error ascii_digit lines_1 (requested_ops args_all_succeed ! 1) = None"
    by blast+
  from b b' c1 c2 c3 c4 d1 d2 d3 e1 e2 e3 e4 f1 f4 g1 r1 r2 r2' r3 r4 r5 r6
  show ?thesis by simp
qed

section \<open>The value formatter on control characters\<close>

text \<open>
  Claim C1 asks that the text of every value parses back to the value. The formatter
  escapes backspace, tab, newline and carriage return only: a form feed inside a string
  is written raw between the quotes, and a table key that ends in a newline is written
  bare, newline included. Neither text is a TOML value.
\<close>

theorem format_toml_value_raw_control_characters:
  "format_toml_value (VStr [12]) = [DQUOTE, 12, DQUOTE] \<and>
   format_toml_value (VTable [([97, LF], VInt 1)]) = u ''{ a'' @ [LF] @ u '' = 1 }''"
  by code_simp

end
